theory Spec2Isabelle
  imports Main "HOL-Library.Char_ord" "HOL-Library.List_Lexorder" "HOL-Library.Word"
begin

section \<open>The schema compiler: \<^verbatim>\<open>dgraph/cmd/graphql/schema/schemagen.go\<close>\<close>

subsection \<open>The parsed schema (package \<^verbatim>\<open>ast\<close> of gqlparser)\<close>

text \<open>
  The functions of \<^verbatim>\<open>schemagen.go\<close> read a validated \<^verbatim>\<open>*ast.Schema\<close>. The model keeps
  the fields of the \<^verbatim>\<open>ast\<close> structures that the functions read. A Go pointer that may be
  \<^verbatim>\<open>nil\<close> is an \<open>option\<close>; dereferencing \<^verbatim>\<open>nil\<close> is the panic \<open>NilDereference\<close>, and
  every function that can panic returns \<open>panic + 'a\<close>.
\<close>

datatype panic = NilDereference | SliceBounds

datatype DefinitionKind = Scalar | Object | Interface | Union | Enum | InputObject

text \<open>
  \<^verbatim>\<open>ast.Type\<close>: \<^verbatim>\<open>NamedType string; Elem *Type\<close>. A named type has \<^verbatim>\<open>NamedType\<close> set and no
  element; a list type has an empty \<^verbatim>\<open>NamedType\<close> and its element type in \<^verbatim>\<open>Elem\<close>.
\<close>

datatype Type = Type (NamedType: string) (Elem: "Type option")

text \<open>
  \<^verbatim>\<open>func (t *Type) Name() string\<close>: the \<^verbatim>\<open>NamedType\<close> when it is not empty, else the name
  of the element type (a \<^verbatim>\<open>nil\<close> element is dereferenced there).
\<close>

fun Type_Name :: "Type \<Rightarrow> panic + string" where
  "Type_Name (Type n e) =
     (if n \<noteq> [] then Inr n
      else case e of None \<Rightarrow> Inl NilDereference | Some t \<Rightarrow> Type_Name t)"

record Argument =
  arg_Name :: string
  arg_ValueRaw :: string

record Directive =
  dir_Name :: string
  dir_Arguments :: "Argument list"

record FieldDefinition =
  fld_Name :: string
  fld_Type :: Type
  fld_Directives :: "Directive list"

record Definition =
  def_Kind :: DefinitionKind
  def_Name :: string
  def_Fields :: "FieldDefinition list"
  def_Interfaces :: "string list"
  def_BuiltIn :: bool

text \<open>
  \<^verbatim>\<open>ast.Schema.Types\<close> is a Go map from type name to \<^verbatim>\<open>*Definition\<close>. It is kept as an
  association list: \<open>map_of\<close> is the lookup \<^verbatim>\<open>sch.Types[name]\<close> (\<open>None\<close> is the \<^verbatim>\<open>nil\<close>
  pointer a missing key gives), and the order of the list is the order in which a
  \<^verbatim>\<open>range\<close> loop happens to visit the map, which Go leaves unspecified: a statement
  about every schema is a statement about every iteration order.
\<close>

record Schema =
  Types :: "(string \<times> Definition) list"

text \<open>\<^verbatim>\<open>DirectiveList.ForName\<close> and \<^verbatim>\<open>ArgumentList.ForName\<close>: the first entry of that name.\<close>

definition Directives_ForName :: "Directive list \<Rightarrow> string \<Rightarrow> Directive option" where
  "Directives_ForName ds name = find (\<lambda>d. dir_Name d = name) ds"

definition Arguments_ForName :: "Argument list \<Rightarrow> string \<Rightarrow> Argument option" where
  "Arguments_ForName as name = find (\<lambda>a. arg_Name a = name) as"

subsection \<open>\<^verbatim>\<open>parentInterface\<close>\<close>

text \<open>
  The loop of \<^verbatim>\<open>parentInterface\<close> over \<^verbatim>\<open>typDef.Interfaces\<close>. The inner loop over the
  fields of the interface returns at the first field of that name, so it is the
  membership test on the field names. \<^verbatim>\<open>sch.Types[iface]\<close> of an undeclared interface is
  \<^verbatim>\<open>nil\<close>, and \<^verbatim>\<open>interfaceDef.Fields\<close> panics on it.
\<close>

fun parentInterface_loop :: "Schema \<Rightarrow> string list \<Rightarrow> string \<Rightarrow> panic + string" where
  "parentInterface_loop sch [] fieldName = Inr []"
| "parentInterface_loop sch (iface # rest) fieldName =
     (case map_of (Types sch) iface of
        None \<Rightarrow> Inl NilDereference
      | Some interfaceDef \<Rightarrow>
          if fieldName \<in> set (map fld_Name (def_Fields interfaceDef)) then Inr iface
          else parentInterface_loop sch rest fieldName)"

definition parentInterface :: "Schema \<Rightarrow> Definition \<Rightarrow> string \<Rightarrow> panic + string" where
  "parentInterface sch typDef fieldName =
     (if length (def_Interfaces typDef) = 0 then Inr []
      else parentInterface_loop sch (def_Interfaces typDef) fieldName)"

text \<open>
  Whether the interface named \<open>iface\<close> is declared in the schema with a field called
  \<open>fieldName\<close>; used to state what \<^verbatim>\<open>parentInterface\<close> finds.
\<close>

definition declaresField :: "Schema \<Rightarrow> string \<Rightarrow> string \<Rightarrow> bool" where
  "declaresField sch fieldName iface =
     (case map_of (Types sch) iface of
        None \<Rightarrow> False
      | Some interfaceDef \<Rightarrow> fieldName \<in> set (map fld_Name (def_Fields interfaceDef)))"

subsection \<open>\<^verbatim>\<open>DgraphMapping\<close>\<close>

text \<open>
  \<^verbatim>\<open>strings.HasPrefix\<close>, \<^verbatim>\<open>strings.HasSuffix\<close>, \<^verbatim>\<open>strings.TrimPrefix\<close> and
  \<^verbatim>\<open>strings.TrimSuffix\<close> of the Go standard library, on byte strings.
\<close>

definition strings_HasPrefix :: "string \<Rightarrow> string \<Rightarrow> bool" where
  "strings_HasPrefix s pre = (length s \<ge> length pre \<and> take (length pre) s = pre)"

definition strings_HasSuffix :: "string \<Rightarrow> string \<Rightarrow> bool" where
  "strings_HasSuffix s suf = (length s \<ge> length suf \<and> drop (length s - length suf) s = suf)"

definition strings_TrimPrefix :: "string \<Rightarrow> string \<Rightarrow> string" where
  "strings_TrimPrefix s pre = (if strings_HasPrefix s pre then drop (length pre) s else s)"

definition strings_TrimSuffix :: "string \<Rightarrow> string \<Rightarrow> string" where
  "strings_TrimSuffix s suf = (if strings_HasSuffix s suf then take (length s - length suf) s else s)"

definition del :: string where
  "del = ''Delete''"

definition payload :: string where
  "payload = ''Payload''"

text \<open>The guard at the head of the loop body: the types that \<^verbatim>\<open>DgraphMapping\<close> passes over.\<close>

definition DgraphMapping_skips :: "Definition \<Rightarrow> bool" where
  "DgraphMapping_skips inputTyp =
     (def_BuiltIn inputTyp \<or> def_Name inputTyp = ''query'' \<or> def_Name inputTyp = ''mutation'' \<or>
      (def_Kind inputTyp \<noteq> Object \<and> def_Kind inputTyp \<noteq> Interface))"

text \<open>
  The inner loop over \<^verbatim>\<open>inputTyp.Fields\<close>. Its only effect is the assignment
  \<^verbatim>\<open>dgraphPredicate[originalTyp.Name+fld.Name] = typName + "." + fld.Name\<close>; the model
  returns the assignments in the order the loop makes them.
\<close>

fun DgraphMapping_fields ::
  "Schema \<Rightarrow> Definition \<Rightarrow> string \<Rightarrow> Definition \<Rightarrow> FieldDefinition list \<Rightarrow>
   panic + (string \<times> string) list" where
  "DgraphMapping_fields sch originalTyp inputTypeName inputTyp [] = Inr []"
| "DgraphMapping_fields sch originalTyp inputTypeName inputTyp (fld # rest) =
     (case parentInterface sch inputTyp (fld_Name fld) of
        Inl p \<Rightarrow> Inl p
      | Inr parentInt \<Rightarrow>
          (let typName = (if parentInt \<noteq> [] then parentInt else inputTypeName) in
           case DgraphMapping_fields sch originalTyp inputTypeName inputTyp rest of
             Inl p \<Rightarrow> Inl p
           | Inr ws \<Rightarrow>
               Inr ((def_Name originalTyp @ fld_Name fld, typName @ ''.'' @ fld_Name fld) # ws)))"

text \<open>
  The body of the outer loop for one type of the schema. A name with the prefix
  \<^verbatim>\<open>Delete\<close> and the suffix \<^verbatim>\<open>Payload\<close> is trimmed and looked up again; when the schema
  has no type of the trimmed name, \<^verbatim>\<open>inputTyp\<close> is \<^verbatim>\<open>nil\<close> and \<^verbatim>\<open>inputTyp.Fields\<close> panics.
\<close>

definition DgraphMapping_type :: "Schema \<Rightarrow> Definition \<Rightarrow> panic + (string \<times> string) list" where
  "DgraphMapping_type sch inputTyp =
     (if DgraphMapping_skips inputTyp then Inr []
      else
        (let originalTyp = inputTyp; inputTypeName = def_Name inputTyp in
         if strings_HasPrefix inputTypeName del \<and> strings_HasSuffix inputTypeName payload then
           (let inputTypeName = strings_TrimSuffix (strings_TrimPrefix inputTypeName del) payload in
            case map_of (Types sch) inputTypeName of
              None \<Rightarrow> Inl NilDereference
            | Some inputTyp \<Rightarrow>
                DgraphMapping_fields sch originalTyp inputTypeName inputTyp (def_Fields inputTyp))
         else DgraphMapping_fields sch originalTyp inputTypeName inputTyp (def_Fields inputTyp)))"

fun DgraphMapping_types :: "Schema \<Rightarrow> Definition list \<Rightarrow> panic + (string \<times> string) list" where
  "DgraphMapping_types sch [] = Inr []"
| "DgraphMapping_types sch (inputTyp # rest) =
     (case DgraphMapping_type sch inputTyp of
        Inl p \<Rightarrow> Inl p
      | Inr ws \<Rightarrow>
          (case DgraphMapping_types sch rest of
             Inl p \<Rightarrow> Inl p
           | Inr ws' \<Rightarrow> Inr (ws @ ws')))"

text \<open>
  The assignments of a whole run, in order, and the map they leave: a later assignment
  to a key overwrites an earlier one.
\<close>

definition DgraphMapping_assignments :: "Schema \<Rightarrow> panic + (string \<times> string) list" where
  "DgraphMapping_assignments sch = DgraphMapping_types sch (map snd (Types sch))"

definition assign :: "(string \<rightharpoonup> string) \<Rightarrow> string \<times> string \<Rightarrow> (string \<rightharpoonup> string)" where
  "assign m kv = m(fst kv \<mapsto> snd kv)"

definition DgraphMapping :: "Schema \<Rightarrow> panic + (string \<rightharpoonup> string)" where
  "DgraphMapping sch =
     (case DgraphMapping_assignments sch of
        Inl p \<Rightarrow> Inl p
      | Inr ws \<Rightarrow> Inr (foldl assign Map.empty ws))"

text \<open>Reading the returned map at one key: \<^verbatim>\<open>DgraphMapping(sch)[key]\<close>.\<close>

definition DgraphMapping_at :: "Schema \<Rightarrow> string \<Rightarrow> panic + string option" where
  "DgraphMapping_at sch key =
     (case DgraphMapping sch of Inl p \<Rightarrow> Inl p | Inr m \<Rightarrow> Inr (m key))"

subsection \<open>\<^verbatim>\<open>genDgSchema\<close>\<close>

text \<open>
  The tables \<^verbatim>\<open>scalarToDgraph\<close> and \<^verbatim>\<open>defaultSearchables\<close> and the names
  \<^verbatim>\<open>searchableDirective\<close> and \<^verbatim>\<open>searchableArg\<close> are declared in other files of the
  package; \<^verbatim>\<open>genDgSchema\<close> takes them as parameters here. Indexing a Go
  \<^verbatim>\<open>map[string]string\<close> at a missing key gives the empty string.
\<close>

record Tables =
  scalarToDgraph :: "string \<Rightarrow> string option"
  defaultSearchables :: "string \<Rightarrow> string option"
  searchableDirective :: string
  searchableArg :: string

definition index_map :: "(string \<Rightarrow> string option) \<Rightarrow> string \<Rightarrow> string" where
  "index_map m k = (case m k of None \<Rightarrow> [] | Some v \<Rightarrow> v)"

text \<open>
  Each \<^verbatim>\<open>fmt.Fprintf\<close> of \<^verbatim>\<open>genDgSchema\<close> is kept with its arguments:
  \<^item> \<open>TypeOpen n\<close> is \<^verbatim>\<open>"type %s {\n"\<close>;
  \<^item> \<open>TypeField typName f typStr\<close> is \<^verbatim>\<open>"  %s.%s: %s\n"\<close>;
  \<^item> \<open>TypeClose\<close> is \<^verbatim>\<open>"}\n"\<close>;
  \<^item> \<open>PredDecl typName f typStr indexStr\<close> is \<^verbatim>\<open>"%s.%s: %s%s .\n"\<close>, the standalone
    predicate declaration written to \<^verbatim>\<open>preds\<close>. The Object case has no index argument
    (\<^verbatim>\<open>"%s.%s: %s .\n"\<close>, the empty \<open>indexStr\<close>), the Enum case is
    \<^verbatim>\<open>"%s.%s: string @index(exact) .\n"\<close>.
  \<open>render\<close> is the text the call writes.
\<close>

datatype emit =
    TypeOpen string
  | TypeField string string string
  | TypeClose
  | PredDecl string string string string

fun render :: "emit \<Rightarrow> string" where
  "render (TypeOpen n) = ''type '' @ n @ '' {\<newline>''"
| "render (TypeField typName f typStr) = ''  '' @ typName @ ''.'' @ f @ '': '' @ typStr @ ''\<newline>''"
| "render TypeClose = ''}\<newline>''"
| "render (PredDecl typName f typStr indexStr) =
     typName @ ''.'' @ f @ '': '' @ typStr @ indexStr @ '' .\<newline>''"

definition Builder_String :: "emit list \<Rightarrow> string" where
  "Builder_String b = concat (map render b)"

text \<open>
  The index string of a scalar field: the \<^verbatim>\<open>indexStr\<close> computed from the
  \<^verbatim>\<open>searchable\<close> directive of the field.
\<close>

definition scalar_indexStr :: "Tables \<Rightarrow> FieldDefinition \<Rightarrow> string \<Rightarrow> string" where
  "scalar_indexStr T f typeName =
     (case Directives_ForName (fld_Directives f) (searchableDirective T) of
        None \<Rightarrow> []
      | Some searchable \<Rightarrow>
          (case Arguments_ForName (dir_Arguments searchable) (searchableArg T) of
             Some arg \<Rightarrow> '' @index('' @ arg_ValueRaw arg @ '')''
           | None \<Rightarrow> '' @index('' @ index_map (defaultSearchables T) typeName @ '')''))"

text \<open>
  The body of the loop over \<^verbatim>\<open>def.Fields\<close> for one field: what it writes to \<^verbatim>\<open>typeDef\<close>
  and what it writes to \<^verbatim>\<open>preds\<close>. \<^verbatim>\<open>gqlSch.Types[f.Type.Name()].Kind\<close> panics when the
  schema has no type of that name.
\<close>

definition genDgSchema_field ::
  "Tables \<Rightarrow> Schema \<Rightarrow> Definition \<Rightarrow> FieldDefinition \<Rightarrow> panic + (emit list \<times> emit list)" where
  "genDgSchema_field T gqlSch def f =
     (case Type_Name (fld_Type f) of
        Inl p \<Rightarrow> Inl p
      | Inr typeName \<Rightarrow>
          if typeName = ''ID'' then Inr ([], [])
          else
            (case parentInterface gqlSch def (fld_Name f) of
               Inl p \<Rightarrow> Inl p
             | Inr parentInt \<Rightarrow>
                 (let typName = (if parentInt \<noteq> [] then parentInt else def_Name def);
                      prefix = (if Elem (fld_Type f) \<noteq> None then ''['' else []);
                      suffix = (if Elem (fld_Type f) \<noteq> None then '']'' else [])
                  in
                  case map_of (Types gqlSch) typeName of
                    None \<Rightarrow> Inl NilDereference
                  | Some fieldTyp \<Rightarrow>
                      (case def_Kind fieldTyp of
                         Object \<Rightarrow>
                           (let typStr = prefix @ ''uid'' @ suffix in
                            Inr ([TypeField typName (fld_Name f) typStr],
                                 if parentInt = [] then [PredDecl typName (fld_Name f) typStr []]
                                 else []))
                       | Scalar \<Rightarrow>
                           (let typStr = prefix @ index_map (scalarToDgraph T) typeName @ suffix;
                                indexStr = scalar_indexStr T f typeName
                            in
                            Inr ([TypeField typName (fld_Name f) typStr],
                                 if parentInt = [] then [PredDecl typName (fld_Name f) typStr indexStr]
                                 else []))
                       | Enum \<Rightarrow>
                           Inr ([TypeField typName (fld_Name f) ''string''],
                                if parentInt = []
                                then [PredDecl typName (fld_Name f) ''string'' '' @index(exact)'']
                                else [])
                       | _ \<Rightarrow> Inr ([], [])))))"

fun genDgSchema_fields ::
  "Tables \<Rightarrow> Schema \<Rightarrow> Definition \<Rightarrow> FieldDefinition list \<Rightarrow> panic + (emit list \<times> emit list)" where
  "genDgSchema_fields T gqlSch def [] = Inr ([], [])"
| "genDgSchema_fields T gqlSch def (f # fs) =
     (case genDgSchema_field T gqlSch def f of
        Inl p \<Rightarrow> Inl p
      | Inr (t, p) \<Rightarrow>
          (case genDgSchema_fields T gqlSch def fs of
             Inl q \<Rightarrow> Inl q
           | Inr (ts, ps) \<Rightarrow> Inr (t @ ts, p @ ps)))"

text \<open>
  The loop over \<^verbatim>\<open>definitions\<close>. Each Object or Interface definition appends one entry to
  \<^verbatim>\<open>typeStrings\<close>, kept as the pair of its two builders \<^verbatim>\<open>(typeDef, preds)\<close>; a key with no
  type in the schema is a \<^verbatim>\<open>nil\<close> definition, and \<^verbatim>\<open>def.Kind\<close> panics.
\<close>

fun genDgSchema_types ::
  "Tables \<Rightarrow> Schema \<Rightarrow> string list \<Rightarrow> panic + (emit list \<times> emit list) list" where
  "genDgSchema_types T gqlSch [] = Inr []"
| "genDgSchema_types T gqlSch (key # rest) =
     (case map_of (Types gqlSch) key of
        None \<Rightarrow> Inl NilDereference
      | Some def \<Rightarrow>
          (if def_Kind def = Object \<or> def_Kind def = Interface then
             (case genDgSchema_fields T gqlSch def (def_Fields def) of
                Inl p \<Rightarrow> Inl p
              | Inr (typeDef, preds) \<Rightarrow>
                  (case genDgSchema_types T gqlSch rest of
                     Inl p \<Rightarrow> Inl p
                   | Inr typeStrings \<Rightarrow>
                       Inr ((TypeOpen (def_Name def) # typeDef @ [TypeClose], preds) # typeStrings)))
           else genDgSchema_types T gqlSch rest))"

definition genDgSchema :: "Tables \<Rightarrow> Schema \<Rightarrow> string list \<Rightarrow> panic + string" where
  "genDgSchema T gqlSch definitions =
     (case genDgSchema_types T gqlSch definitions of
        Inl p \<Rightarrow> Inl p
      | Inr typeStrings \<Rightarrow>
          Inr (concat (map (\<lambda>(typeDef, preds). Builder_String typeDef @ Builder_String preds)
                         typeStrings)))"

text \<open>
  All standalone predicate declarations of a run, in output order, and the ones that
  declare the predicate \<open>typName.fieldName\<close>.
\<close>

definition genDgSchema_preds :: "Tables \<Rightarrow> Schema \<Rightarrow> string list \<Rightarrow> panic + emit list" where
  "genDgSchema_preds T gqlSch definitions =
     (case genDgSchema_types T gqlSch definitions of
        Inl p \<Rightarrow> Inl p
      | Inr typeStrings \<Rightarrow> Inr (concat (map snd typeStrings)))"

fun declares :: "string \<Rightarrow> string \<Rightarrow> emit \<Rightarrow> bool" where
  "declares typName fieldName (PredDecl t f typStr indexStr) = (t = typName \<and> f = fieldName)"
| "declares typName fieldName _ = False"

definition declaration_count ::
  "Tables \<Rightarrow> Schema \<Rightarrow> string list \<Rightarrow> string \<Rightarrow> string \<Rightarrow> panic + nat" where
  "declaration_count T gqlSch definitions typName fieldName =
     (case genDgSchema_preds T gqlSch definitions of
        Inl p \<Rightarrow> Inl p
      | Inr preds \<Rightarrow> Inr (length (filter (declares typName fieldName) preds)))"

text \<open>The text that the loop body writes to \<^verbatim>\<open>preds\<close> for one field.\<close>

definition genDgSchema_field_preds :: 
  "Tables \<Rightarrow> Schema \<Rightarrow> Definition \<Rightarrow> FieldDefinition \<Rightarrow> panic + string" where
  "genDgSchema_field_preds T gqlSch def f =
     (case genDgSchema_field T gqlSch def f of
        Inl p \<Rightarrow> Inl p
      | Inr (typeDef, preds) \<Rightarrow> Inr (Builder_String preds))"

subsection \<open>An example schema\<close>

text \<open>
  The schema of
  \<^verbatim>\<open>interface Character { id: ID!  name: String @searchable(by: term) }\<close>,
  \<^verbatim>\<open>type Human implements Character { id: ID!  name: String  age: Int @searchable
  friends: [Human]  mood: Mood }\<close> and \<^verbatim>\<open>enum Mood\<close>, with the built-in scalars and the
  generated type \<^verbatim>\<open>DeleteHumanPayload\<close>. The second schema has one more type,
  \<^verbatim>\<open>HumanPayload\<close>, whose name ends in \<^verbatim>\<open>Payload\<close> and does not start with \<^verbatim>\<open>Delete\<close>.
\<close>

definition ex_id :: FieldDefinition where
  "ex_id = \<lparr> fld_Name = ''id'', fld_Type = Type ''ID'' None, fld_Directives = [] \<rparr>"

definition ex_Character_name :: FieldDefinition where
  "ex_Character_name = \<lparr> fld_Name = ''name'', fld_Type = Type ''String'' None,
     fld_Directives =
       [\<lparr> dir_Name = ''searchable'',
          dir_Arguments = [\<lparr> arg_Name = ''by'', arg_ValueRaw = ''term'' \<rparr>] \<rparr>] \<rparr>"

definition ex_name :: FieldDefinition where
  "ex_name = \<lparr> fld_Name = ''name'', fld_Type = Type ''String'' None, fld_Directives = [] \<rparr>"

definition ex_age :: FieldDefinition where
  "ex_age = \<lparr> fld_Name = ''age'', fld_Type = Type ''Int'' None,
     fld_Directives = [\<lparr> dir_Name = ''searchable'', dir_Arguments = [] \<rparr>] \<rparr>"

definition ex_friends :: FieldDefinition where
  "ex_friends = \<lparr> fld_Name = ''friends'', fld_Type = Type [] (Some (Type ''Human'' None)),
     fld_Directives = [] \<rparr>"

definition ex_mood :: FieldDefinition where
  "ex_mood = \<lparr> fld_Name = ''mood'', fld_Type = Type ''Mood'' None, fld_Directives = [] \<rparr>"

definition ex_Character :: Definition where
  "ex_Character = \<lparr> def_Kind = Interface, def_Name = ''Character'',
     def_Fields = [ex_id, ex_Character_name], def_Interfaces = [], def_BuiltIn = False \<rparr>"

definition ex_Human :: Definition where
  "ex_Human = \<lparr> def_Kind = Object, def_Name = ''Human'',
     def_Fields = [ex_id, ex_name, ex_age, ex_friends, ex_mood],
     def_Interfaces = [''Character''], def_BuiltIn = False \<rparr>"

definition ex_scalar :: "string \<Rightarrow> Definition" where
  "ex_scalar n = \<lparr> def_Kind = Scalar, def_Name = n, def_Fields = [], def_Interfaces = [],
     def_BuiltIn = True \<rparr>"

definition ex_Mood :: Definition where
  "ex_Mood = \<lparr> def_Kind = Enum, def_Name = ''Mood'', def_Fields = [], def_Interfaces = [],
     def_BuiltIn = False \<rparr>"

definition ex_DeleteHumanPayload :: Definition where
  "ex_DeleteHumanPayload = \<lparr> def_Kind = Object, def_Name = ''DeleteHumanPayload'',
     def_Fields = [\<lparr> fld_Name = ''msg'', fld_Type = Type ''String'' None, fld_Directives = [] \<rparr>],
     def_Interfaces = [], def_BuiltIn = False \<rparr>"

definition ex_HumanPayload :: Definition where
  "ex_HumanPayload = \<lparr> def_Kind = Object, def_Name = ''HumanPayload'',
     def_Fields = [ex_name], def_Interfaces = [], def_BuiltIn = False \<rparr>"

definition ex_schema :: Schema where
  "ex_schema = \<lparr> Types =
     [(''Character'', ex_Character), (''Human'', ex_Human), (''Mood'', ex_Mood),
      (''String'', ex_scalar ''String''), (''Int'', ex_scalar ''Int''), (''ID'', ex_scalar ''ID''),
      (''DeleteHumanPayload'', ex_DeleteHumanPayload)] \<rparr>"

definition ex_schema_payload :: Schema where
  "ex_schema_payload = \<lparr> Types = Types ex_schema @ [(''HumanPayload'', ex_HumanPayload)] \<rparr>"

definition ex_tables :: Tables where
  "ex_tables = \<lparr> scalarToDgraph = map_of [(''String'', ''string''), (''Int'', ''int'')],
     defaultSearchables = map_of [(''String'', ''term''), (''Int'', ''int'')],
     searchableDirective = ''searchable'', searchableArg = ''by'' \<rparr>"

definition ex_definitions :: "string list" where
  "ex_definitions = [''Character'', ''Human'', ''Mood'']"

text \<open>
  A second pair of types, for the index of a field:
  \<^verbatim>\<open>interface Being { name: String }\<close> and
  \<^verbatim>\<open>type Droid implements Being { name: String @searchable(by: exact)
  model: String @searchable(by: exact)  serial: String }\<close>. The default index of
  \<^verbatim>\<open>String\<close> in the tables below is \<^verbatim>\<open>term\<close>, so the explicit argument \<^verbatim>\<open>exact\<close> is told
  apart from the default.
\<close>
definition ex_Being_name :: FieldDefinition where
  "ex_Being_name = \<lparr> fld_Name = ''name'', fld_Type = Type ''String'' None, fld_Directives = [] \<rparr>"

definition ex_by_exact :: Directive where
  "ex_by_exact = \<lparr> dir_Name = ''searchable'',
     dir_Arguments = [\<lparr> arg_Name = ''by'', arg_ValueRaw = ''exact'' \<rparr>] \<rparr>"

definition ex_Droid_name :: FieldDefinition where
  "ex_Droid_name = \<lparr> fld_Name = ''name'', fld_Type = Type ''String'' None,
     fld_Directives = [ex_by_exact] \<rparr>"

definition ex_model :: FieldDefinition where
  "ex_model = \<lparr> fld_Name = ''model'', fld_Type = Type ''String'' None,
     fld_Directives = [ex_by_exact] \<rparr>"

definition ex_serial :: FieldDefinition where
  "ex_serial = \<lparr> fld_Name = ''serial'', fld_Type = Type ''String'' None, fld_Directives = [] \<rparr>"

definition ex_Being :: Definition where
  "ex_Being = \<lparr> def_Kind = Interface, def_Name = ''Being'',
     def_Fields = [ex_Being_name], def_Interfaces = [], def_BuiltIn = False \<rparr>"

definition ex_Droid :: Definition where
  "ex_Droid = \<lparr> def_Kind = Object, def_Name = ''Droid'',
     def_Fields = [ex_Droid_name, ex_model, ex_serial],
     def_Interfaces = [''Being''], def_BuiltIn = False \<rparr>"

definition ex_schema_droid :: Schema where
  "ex_schema_droid = \<lparr> Types = Types ex_schema @ [(''Being'', ex_Being), (''Droid'', ex_Droid)] \<rparr>"

definition ex_definitions_droid :: "string list" where
  "ex_definitions_droid = [''Being'', ''Droid'']"

section \<open>The transaction gateway: the HTTP handlers of package \<^verbatim>\<open>alpha\<close>\<close>

subsection \<open>Errors, status codes and requests\<close>

text \<open>
  Go \<^verbatim>\<open>error\<close> values. \<open>ErrAborted\<close> is the sentinel \<^verbatim>\<open>dgo.ErrAborted\<close>, which the handlers
  compare by identity; \<open>Errorf\<close> is an error made by \<^verbatim>\<open>errors.Errorf\<close> with that text;
  \<open>SyntaxError\<close> and \<open>UnmarshalTypeError\<close> are the two \<^verbatim>\<open>encoding/json\<close> errors with their
  message and their \<^verbatim>\<open>Offset\<close>; \<open>NumError fn str\<close> is the \<^verbatim>\<open>*strconv.NumError\<close> of a failed
  parse; \<open>Wrapf e text\<close> is \<^verbatim>\<open>errors.Wrapf(e, text)\<close>; \<open>OtherError\<close> is any other error of
  a collaborator, by its text.
\<close>

datatype error =
    ErrAborted
  | Errorf string
  | SyntaxError string int
  | UnmarshalTypeError string int
  | NumError string string
  | Wrapf error string
  | OtherError string

text \<open>
  The status codes \<^verbatim>\<open>x.Success\<close>, \<^verbatim>\<open>x.Error\<close>, \<^verbatim>\<open>x.ErrorInvalidRequest\<close> and
  \<^verbatim>\<open>x.ErrorInvalidMethod\<close> are string constants of package \<^verbatim>\<open>x\<close>, declared outside the
  files at hand; they are kept symbolic.
\<close>

datatype x_code = x_Success | x_Error | x_ErrorInvalidRequest | x_ErrorInvalidMethod

text \<open>
  The message of a status: a literal of the handler, or the text \<^verbatim>\<open>err.Error()\<close> of an
  error.
\<close>

datatype message = Text string | ErrorText error

text \<open>
  How a handler ends before it has a result: a panic, or a status written with
  \<^verbatim>\<open>x.SetStatus\<close> or \<^verbatim>\<open>x.SetStatusWithData\<close> followed by \<^verbatim>\<open>return\<close>.
\<close>

datatype failure =
    Panic panic
  | SetStatus x_code message
  | SetStatusWithData x_code message

text \<open>
  An \<^verbatim>\<open>io.Reader\<close> is kept as what \<^verbatim>\<open>ioutil.ReadAll\<close> returns on it. Of an
  \<^verbatim>\<open>*http.Request\<close> the handlers read the method, the query string through
  \<^verbatim>\<open>r.URL.Query().Get\<close>, the headers through \<^verbatim>\<open>r.Header.Get\<close> (both give the first value
  of the name, and the empty string when there is none) and the body.
\<close>

type_synonym Reader = "error + string"

record Request =
  Method :: string
  URL_Query :: "string \<Rightarrow> string option"
  Header :: "string \<Rightarrow> string option"
  Body :: Reader

definition Query_Get :: "Request \<Rightarrow> string \<Rightarrow> string" where
  "Query_Get r name = (case URL_Query r name of None \<Rightarrow> [] | Some v \<Rightarrow> v)"

definition Header_Get :: "Request \<Rightarrow> string \<Rightarrow> string" where
  "Header_Get r name = (case Header r name of None \<Rightarrow> [] | Some v \<Rightarrow> v)"

subsection \<open>\<^verbatim>\<open>readRequest\<close>\<close>

text \<open>
  \<^verbatim>\<open>gzip.NewReader\<close> of the standard library is a parameter: it fails on a bad header or
  gives the reader of the decompressed stream. \<^verbatim>\<open>readRequest\<close> returns the body, or
  \<^verbatim>\<open>nil\<close> after it has set a status.
\<close>

definition readRequest :: "(Reader \<Rightarrow> error + Reader) \<Rightarrow> Request \<Rightarrow> failure + string" where
  "readRequest gzip_NewReader r =
     (let enc = Header_Get r ''Content-Encoding'' in
      if enc \<noteq> [] \<and> enc \<noteq> ''identity'' then
        (if enc = ''gzip'' then
           (case gzip_NewReader (Body r) of
              Inl err \<Rightarrow> Inl (SetStatus x_Error (Text ''Unable to create decompressor''))
            | Inr gz \<Rightarrow>
                (case gz of
                   Inl err \<Rightarrow> Inl (SetStatus x_ErrorInvalidRequest (ErrorText err))
                 | Inr body \<Rightarrow> Inr body))
         else Inl (SetStatus x_ErrorInvalidRequest (Text ''Unsupported content encoding'')))
      else
        (case Body r of
           Inl err \<Rightarrow> Inl (SetStatus x_ErrorInvalidRequest (ErrorText err))
         | Inr body \<Rightarrow> Inr body))"

subsection \<open>\<^verbatim>\<open>parseBool\<close>\<close>

text \<open>\<^verbatim>\<open>strconv.ParseBool\<close> of the standard library.\<close>

definition strconv_ParseBool :: "string \<Rightarrow> error + bool" where
  "strconv_ParseBool str =
     (if str \<in> set [''1'', ''t'', ''T'', ''TRUE'', ''true'', ''True''] then Inr True
      else if str \<in> set [''0'', ''f'', ''F'', ''FALSE'', ''false'', ''False''] then Inr False
      else Inl (NumError ''ParseBool'' str))"

definition parseBool :: "Request \<Rightarrow> string \<Rightarrow> error + bool" where
  "parseBool r name =
     (let v = Query_Get r name in
      if v = [] then Inr False
      else
        (case strconv_ParseBool v of
           Inl err \<Rightarrow> Inl (Wrapf err (''while parsing '' @ name @ '' as bool''))
         | Inr boolval \<Rightarrow> Inr boolval))"

subsection \<open>\<^verbatim>\<open>queryHandler\<close>: the request sent to the engine\<close>

text \<open>
  \<^verbatim>\<open>api.Request\<close>, \<^verbatim>\<open>api.TxnContext\<close>, \<^verbatim>\<open>api.Latency\<close> and \<^verbatim>\<open>api.Response\<close> of dgo, with the
  fields the handlers read and write.
\<close>

record api_Request =
  req_StartTs :: "64 word"
  req_Query :: string
  req_Vars :: "(string \<times> string) list"
  req_ReadOnly :: bool
  req_BestEffort :: bool
  req_CommitNow :: bool

text \<open>
  Lines 219 to 246 of \<^verbatim>\<open>queryHandler\<close>: the request is built from the decoded parameters
  and the start timestamp, every other field at its zero value, and the flags \<^verbatim>\<open>be\<close> and
  \<^verbatim>\<open>ro\<close> of the query string are read when the start timestamp is zero. The result is the
  request that \<^verbatim>\<open>(&edgraph.Server{}).Query\<close> is called with, or the status the handler
  returns with.
\<close>

definition queryHandler_request ::
  "Request \<Rightarrow> string \<Rightarrow> (string \<times> string) list \<Rightarrow> 64 word \<Rightarrow> failure + api_Request" where
  "queryHandler_request r params_Query params_Variables startTs =
     (let req = \<lparr> req_StartTs = startTs, req_Query = params_Query, req_Vars = params_Variables,
                  req_ReadOnly = False, req_BestEffort = False, req_CommitNow = False \<rparr> in
      if req_StartTs req = 0 then
        (case parseBool r ''be'' of
           Inl err \<Rightarrow> Inl (SetStatus x_ErrorInvalidRequest (ErrorText err))
         | Inr isBestEffort \<Rightarrow>
             (let req = (if isBestEffort then req\<lparr> req_BestEffort := True, req_ReadOnly := True \<rparr>
                         else req) in
              case parseBool r ''ro'' of
                Inl err \<Rightarrow> Inl (SetStatus x_ErrorInvalidRequest (ErrorText err))
              | Inr isReadOnly \<Rightarrow>
                  Inr (if isReadOnly then req\<lparr> req_ReadOnly := True \<rparr> else req)))
      else Inr req)"

subsection \<open>\<^verbatim>\<open>mutationHandler\<close>: the response\<close>

record TxnContext =
  txn_StartTs :: "64 word"
  txn_CommitTs :: "64 word"
  txn_Aborted :: bool
  txn_Keys :: "string list"
  txn_Preds :: "string list"

record Latency =
  ParsingNs :: "64 word"
  ProcessingNs :: "64 word"
  EncodingNs :: "64 word"

record api_Response =
  resp_Json :: string
  resp_Txn :: "TxnContext option"
  resp_Latency :: "Latency option"
  resp_Uids :: "(string \<times> string) list"

text \<open>\<^verbatim>\<open>query.Extensions\<close>, with the two fields \<^verbatim>\<open>mutationHandler\<close> sets.\<close>

record Extensions =
  ext_Txn :: "TxnContext option"
  ext_Latency :: "Latency option"

text \<open>
  The map \<^verbatim>\<open>mp\<close> with its keys \<^verbatim>\<open>code\<close>, \<^verbatim>\<open>message\<close> and \<^verbatim>\<open>uids\<close>, and the map \<^verbatim>\<open>response\<close> with
  its keys \<^verbatim>\<open>extensions\<close> and \<^verbatim>\<open>data\<close>; \<^verbatim>\<open>data\<close> holds either \<^verbatim>\<open>mp\<close> itself or a
  \<^verbatim>\<open>json.RawMessage\<close>.
\<close>

record mp =
  mp_code :: x_code
  mp_message :: string
  mp_uids :: "(string \<times> string) list"

datatype data = RawMessage string | MapValue mp

record response =
  extensions :: Extensions
  data :: data

text \<open>
  \<^verbatim>\<open>sort.Strings\<close> sorts in increasing order of Go's string comparison, the
  lexicographic order of the bytes; that is the order of \<open>string\<close> here, and \<open>sort\<close>
  gives the one sorted arrangement of the elements.
\<close>

definition sort_Strings :: "string list \<Rightarrow> string list" where
  "sort_Strings a = sort a"

text \<open>
  Lines 371 to 408 of \<^verbatim>\<open>mutationHandler\<close>, after the engine has answered with \<open>resp\<close>.
  \<open>commitNow\<close> is \<^verbatim>\<open>req.CommitNow\<close>, \<open>parsingNs\<close> the measured parsing time, and
  \<^verbatim>\<open>json.Marshal\<close> on \<^verbatim>\<open>mp\<close> is a parameter. \<^verbatim>\<open>resp.Latency\<close> and \<^verbatim>\<open>e.Txn\<close> are pointers, and
  the handler dereferences them; \<^verbatim>\<open>data[1:]\<close> panics on empty \<^verbatim>\<open>data\<close>.
\<close>

definition mutationHandler_response ::
  "(mp \<Rightarrow> error + string) \<Rightarrow> bool \<Rightarrow> 64 word \<Rightarrow> api_Response \<Rightarrow> failure + response" where
  "mutationHandler_response json_Marshal commitNow parsingNs resp =
     (case resp_Latency resp of
        None \<Rightarrow> Inl (Panic NilDereference)
      | Some latency \<Rightarrow>
          (case resp_Txn resp of
             None \<Rightarrow> Inl (Panic NilDereference)
           | Some txn \<Rightarrow>
               (let txn = txn\<lparr> txn_Keys := sort_Strings (txn_Keys txn) \<rparr>;
                    txn = txn\<lparr> txn_Preds := sort_Strings (txn_Preds txn) \<rparr>;
                    txn = (if commitNow then txn\<lparr> txn_Keys := take 0 (txn_Keys txn) \<rparr> else txn);
                    e = \<lparr> ext_Txn = Some txn,
                          ext_Latency = Some (latency\<lparr> ParsingNs := parsingNs \<rparr>) \<rparr>;
                    mp = \<lparr> mp_code = x_Success, mp_message = ''Done'', mp_uids = resp_Uids resp \<rparr>;
                    l = length (resp_Json resp)
                in
                if l > 2 \<and> resp_Json resp ! (l - 1) = CHR ''}'' then
                  (case json_Marshal mp of
                     Inl err \<Rightarrow> Inl (SetStatusWithData x_Error (ErrorText err))
                   | Inr d \<Rightarrow>
                       (case d of
                          [] \<Rightarrow> Inl (Panic SliceBounds)
                        | d0 # rest \<Rightarrow>
                            Inr \<lparr> extensions = e,
                                  data = RawMessage (take (l - 1) (resp_Json resp) @ '','' @ rest) \<rparr>))
                else Inr \<lparr> extensions = e, data = MapValue mp \<rparr>)))"

subsection \<open>\<^verbatim>\<open>handleAbort\<close>\<close>

text \<open>
  \<^verbatim>\<open>worker.CommitOverNetwork\<close> is a parameter: from the transaction context to the commit
  timestamp and the error (\<open>None\<close> is \<^verbatim>\<open>nil\<close>). The map returned on success has the keys
  \<^verbatim>\<open>code\<close> and \<^verbatim>\<open>message\<close>.
\<close>

record envelope =
  env_code :: x_code
  env_message :: string

definition handleAbort ::
  "(TxnContext \<Rightarrow> 64 word \<times> error option) \<Rightarrow> 64 word \<Rightarrow> error + envelope" where
  "handleAbort CommitOverNetwork startTs =
     (let tc = \<lparr> txn_StartTs = startTs, txn_CommitTs = 0, txn_Aborted = True,
                 txn_Keys = [], txn_Preds = [] \<rparr>;
          err = snd (CommitOverNetwork tc)
      in
      case err of
        Some ErrAborted \<Rightarrow> Inr \<lparr> env_code = x_Success, env_message = ''Done'' \<rparr>
      | None \<Rightarrow> Inl (Errorf ''transaction could not be aborted'')
      | Some e \<Rightarrow> Inl e)"

subsection \<open>\<^verbatim>\<open>jsonLineAndChar\<close> and \<^verbatim>\<open>convertJSONError\<close>\<close>

text \<open>
  A Go string is a sequence of bytes, and \<^verbatim>\<open>for i, b := range input\<close> walks it rune by
  rune: \<open>i\<close> is the byte index at which the rune starts, and the next iteration starts
  \<open>utf8_width\<close> bytes further. \<open>utf8_width\<close> is the width \<^verbatim>\<open>utf8.DecodeRuneInString\<close>
  reports on a string that is not empty: the length of a well-formed UTF-8 encoding at
  its head, and 1 for a byte that starts none (the rune is then \<^verbatim>\<open>utf8.RuneError\<close>).
\<close>

definition in_range :: "char \<Rightarrow> nat \<Rightarrow> nat \<Rightarrow> bool" where
  "in_range c lo hi = (lo \<le> of_char c \<and> (of_char c :: nat) \<le> hi)"

definition utf8_width :: "string \<Rightarrow> nat" where
  "utf8_width s =
     (case s of
        [] \<Rightarrow> 0
      | c0 # rest \<Rightarrow>
          (let b0 = (of_char c0 :: nat) in
           if b0 < 0xC2 then 1
           else if b0 \<le> 0xDF then
             (case rest of
                c1 # _ \<Rightarrow> if in_range c1 0x80 0xBF then 2 else 1
              | _ \<Rightarrow> 1)
           else if b0 \<le> 0xEF then
             (case rest of
                c1 # c2 # _ \<Rightarrow>
                  if in_range c1 (if b0 = 0xE0 then 0xA0 else 0x80) (if b0 = 0xED then 0x9F else 0xBF)
                     \<and> in_range c2 0x80 0xBF
                  then 3 else 1
              | _ \<Rightarrow> 1)
           else if b0 \<le> 0xF4 then
             (case rest of
                c1 # c2 # c3 # _ \<Rightarrow>
                  if in_range c1 (if b0 = 0xF0 then 0x90 else 0x80) (if b0 = 0xF4 then 0x8F else 0xBF)
                     \<and> in_range c2 0x80 0xBF \<and> in_range c3 0x80 0xBF
                  then 4 else 1
              | _ \<Rightarrow> 1)
           else 1))"

text \<open>
  The loop of \<^verbatim>\<open>jsonLineAndChar\<close>, from the rune that starts at byte \<open>i\<close> of the input, of
  which \<open>c # cs\<close> is left. A rune equals the line feed exactly when its first byte is
  \<^verbatim>\<open>0x0A\<close>. The counters are Go \<^verbatim>\<open>int\<close>s; they stay below the length of the input plus
  two, so they never wrap.
\<close>

fun jsonLineAndChar_loop :: "string \<Rightarrow> int \<Rightarrow> int \<Rightarrow> int \<Rightarrow> int \<Rightarrow> int \<times> int" where
  "jsonLineAndChar_loop [] i offset line character = (line, character)"
| "jsonLineAndChar_loop (c # cs) i offset line character =
     (let line = (if c = CHR 0x0A then line + 1 else line);
          character = (if c = CHR 0x0A then 0 else character);
          character = character + 1
      in
      if i = offset then (line, character)
      else jsonLineAndChar_loop (drop (utf8_width (c # cs) - 1) cs)
             (i + int (utf8_width (c # cs))) offset line character)"

text \<open>The decimal numeral that \<^verbatim>\<open>%d\<close> prints.\<close>

fun digits :: "nat \<Rightarrow> string" where
  "digits n =
     (if n < 10 then [''0123456789'' ! n]
      else digits (n div 10) @ [''0123456789'' ! (n mod 10)])"

definition itoa :: "int \<Rightarrow> string" where
  "itoa n = (if n < 0 then ''-'' @ digits (nat (- n)) else digits (nat n))"

definition jsonLineAndChar :: "string \<Rightarrow> int \<Rightarrow> error + int \<times> int" where
  "jsonLineAndChar input offset =
     (if offset > int (length input) \<or> offset < 0
      then Inl (Errorf (''Couldn't find offset '' @ itoa offset @ '' within the input.''))
      else Inr (jsonLineAndChar_loop input 0 offset 1 0))"

text \<open>\<^verbatim>\<open>convertJSONError\<close>; \<open>None\<close> is the \<^verbatim>\<open>nil\<close> error.\<close>

definition convertJSONError :: "string \<Rightarrow> error option \<Rightarrow> error option" where
  "convertJSONError input err =
     (case err of
        None \<Rightarrow> None
      | Some (SyntaxError msg offset) \<Rightarrow>
          (case jsonLineAndChar input offset of
             Inl lcErr \<Rightarrow> err
           | Inr (line, character) \<Rightarrow>
               Some (Errorf (''Error parsing JSON at line '' @ itoa line @ '', character '' @
                             itoa character @ '': '' @ msg @ ''\<newline>'')))
      | Some (UnmarshalTypeError msg offset) \<Rightarrow>
          (case jsonLineAndChar input offset of
             Inl lcErr \<Rightarrow> err
           | Inr (line, character) \<Rightarrow>
               Some (Errorf (''Error parsing JSON at line '' @ itoa line @ '', character '' @
                             itoa character @ '': '' @ msg @ ''\<newline>'')))
      | Some e \<Rightarrow> err)"

text \<open>
  The position as the specification words it, for comparison with the loop: the input
  is scanned byte by byte, the line is incremented and the character reset at each
  line feed, and each byte scanned counts as one character (the line feed as the first
  of its line).
\<close>

fun scan_position :: "string \<Rightarrow> int \<times> int \<Rightarrow> int \<times> int" where
  "scan_position [] lc = lc"
| "scan_position (c # cs) (line, character) =
     scan_position cs (if c = CHR 0x0A then (line + 1, 1) else (line, character + 1))"

subsection \<open>\<^verbatim>\<open>mutationHandler\<close>: from the query string to the response\<close>

text \<open>
  \<^verbatim>\<open>mutationHandler\<close> parses \<^verbatim>\<open>commitNow\<close> from the query string with \<^verbatim>\<open>parseBool\<close> (line
  292; a value that does not parse ends the request with a status), stores it in
  \<^verbatim>\<open>req.CommitNow\<close> (line 362) and reads it back when it assembles the response (line
  380). The steps in between read the start timestamp and the body, decode the body and
  call the engine; each ends the request or goes on, and \<open>resp\<close> is the answer of the
  engine.
\<close>

definition mutationHandler_reply ::
  "Request \<Rightarrow> (mp \<Rightarrow> error + string) \<Rightarrow> 64 word \<Rightarrow> api_Response \<Rightarrow> failure + response" where
  "mutationHandler_reply r json_Marshal parsingNs resp =
     (case parseBool r ''commitNow'' of
        Inl err \<Rightarrow> Inl (SetStatus x_ErrorInvalidRequest (ErrorText err))
      | Inr commitNow \<Rightarrow> mutationHandler_response json_Marshal commitNow parsingNs resp)"

subsection \<open>Example requests and collaborators\<close>

definition ex_request :: "(string \<times> string) list \<Rightarrow> (string \<times> string) list \<Rightarrow> Reader \<Rightarrow> Request" where
  "ex_request q h b = \<lparr> Method = ''POST'', URL_Query = map_of q, Header = map_of h, Body = b \<rparr>"

text \<open>A stand-in for the decompressor: it accepts a body that starts with \<^verbatim>\<open>gz\<close>.\<close>

definition ex_gunzip :: "Reader \<Rightarrow> error + Reader" where
  "ex_gunzip b =
     (case b of
        Inl e \<Rightarrow> Inl e
      | Inr s \<Rightarrow> if take 2 s = ''gz'' then Inr (Inr (drop 2 s))
                 else Inl (OtherError ''gzip: invalid header''))"

text \<open>An engine that answers an abort of the transaction started at 7 with \<open>e\<close>.\<close>

definition ex_commit :: "error option \<Rightarrow> TxnContext \<Rightarrow> 64 word \<times> error option" where
  "ex_commit e tc =
     (if txn_Aborted tc \<and> txn_StartTs tc = 7 then (0, e)
      else (9, Some (OtherError ''not an abort'')))"

definition ex_marshal :: "mp \<Rightarrow> error + string" where
  \<open>ex_marshal m = Inr ''{"code":"Success","message":"Done","uids":{}}''\<close>

definition ex_response :: "string \<Rightarrow> api_Response" where
  "ex_response js = \<lparr> resp_Json = js,
     resp_Txn = Some \<lparr> txn_StartTs = 4, txn_CommitTs = 0, txn_Aborted = False,
                       txn_Keys = [''k2'', ''k10'', ''k1''], txn_Preds = [''name'', ''age''] \<rparr>,
     resp_Latency = Some \<lparr> ParsingNs = 0, ProcessingNs = 20, EncodingNs = 30 \<rparr>,
     resp_Uids = [] \<rparr>"

text \<open>What the example runs below return.\<close>

definition ex_assigned :: "(string \<times> string) list" where
  "ex_assigned =
     [(''Characterid'', ''Character.id''), (''Charactername'', ''Character.name''),
      (''Humanid'', ''Character.id''), (''Humanname'', ''Character.name''),
      (''Humanage'', ''Human.age''), (''Humanfriends'', ''Human.friends''),
      (''Humanmood'', ''Human.mood''),
      (''DeleteHumanPayloadid'', ''Character.id''),
      (''DeleteHumanPayloadname'', ''Character.name''),
      (''DeleteHumanPayloadage'', ''Human.age''),
      (''DeleteHumanPayloadfriends'', ''Human.friends''),
      (''DeleteHumanPayloadmood'', ''Human.mood'')]"

definition ex_typeStrings :: "(emit list \<times> emit list) list" where
  "ex_typeStrings =
     [([TypeOpen ''Character'', TypeField ''Character'' ''name'' ''string'', TypeClose],
       [PredDecl ''Character'' ''name'' ''string'' '' @index(term)'']),
      ([TypeOpen ''Human'', TypeField ''Character'' ''name'' ''string'',
        TypeField ''Human'' ''age'' ''int'', TypeField ''Human'' ''friends'' ''[uid]'',
        TypeField ''Human'' ''mood'' ''string'', TypeClose],
       [PredDecl ''Human'' ''age'' ''int'' '' @index(int)'',
        PredDecl ''Human'' ''friends'' ''[uid]'' [],
        PredDecl ''Human'' ''mood'' ''string'' '' @index(exact)''])]"

definition ex_reply_keys :: "string list \<Rightarrow> response" where
  "ex_reply_keys keys = \<lparr> extensions =
       \<lparr> ext_Txn = Some \<lparr> txn_StartTs = 4, txn_CommitTs = 0, txn_Aborted = False,
                          txn_Keys = keys, txn_Preds = [''age'', ''name''] \<rparr>,
         ext_Latency = Some \<lparr> ParsingNs = 10, ProcessingNs = 20, EncodingNs = 30 \<rparr> \<rparr>,
     data = MapValue \<lparr> mp_code = x_Success, mp_message = ''Done'', mp_uids = [] \<rparr> \<rparr>"

definition ex_reply :: response where
  "ex_reply = ex_reply_keys []"

text \<open>
  The body \<^verbatim>\<open>{\<close>, the two bytes \<^verbatim>\<open>C3 A9\<close> of one accented letter, \<^verbatim>\<open>}\<close> and two line feeds.
  \<^verbatim>\<open>encoding/json\<close> rejects the byte at index 1 and reports the offset 2, the number of
  bytes it has read.
\<close>

definition ex_body :: string where
  "ex_body = [CHR ''{'', CHR 0xC3, CHR 0xA9, CHR ''}'', CHR 0x0A, CHR 0x0A]"

section \<open>Properties of the schema compiler\<close>

lemmas ex_defs = ex_id_def ex_Character_name_def ex_name_def ex_age_def ex_friends_def
  ex_mood_def ex_Character_def ex_Human_def ex_scalar_def ex_Mood_def
  ex_DeleteHumanPayload_def ex_HumanPayload_def ex_schema_def ex_schema_payload_def
  ex_tables_def ex_definitions_def

lemmas ex_droid_defs = ex_Being_name_def ex_by_exact_def ex_Droid_name_def ex_model_def
  ex_serial_def ex_Being_def ex_Droid_def ex_schema_droid_def ex_definitions_droid_def

subsection \<open>\<^verbatim>\<open>parentInterface\<close>\<close>

lemma parentInterface_loop_find:
  "\<forall>iface \<in> set ifaces. map_of (Types sch) iface \<noteq> None \<Longrightarrow>
   parentInterface_loop sch ifaces fieldName =
     Inr (case find (declaresField sch fieldName) ifaces of None \<Rightarrow> [] | Some iface \<Rightarrow> iface)"
  by (induction ifaces) (auto simp: declaresField_def)

lemma parentInterface_total:
  assumes "\<forall>iface \<in> set (def_Interfaces d). map_of (Types sch) iface \<noteq> None"
  shows "\<exists>p. parentInterface sch d n = Inr p"
  using parentInterface_loop_find [OF assms, of n]
  by (simp add: parentInterface_def)

text \<open>
  Claim C5. In a schema that declares every interface the type definition names (the
  GraphQL validation guarantees it), \<^verbatim>\<open>parentInterface\<close> does not panic and returns the
  first interface, in the order of \<^verbatim>\<open>typDef.Interfaces\<close>, whose field list contains the
  field name; when no interface of the type declares the field, and in particular when
  the type implements no interface, it returns the empty string.
\<close>

theorem parentInterface_first_declaring:
  assumes "\<forall>iface \<in> set (def_Interfaces typDef). map_of (Types sch) iface \<noteq> None"
  shows "parentInterface sch typDef fieldName =
     Inr (case find (declaresField sch fieldName) (def_Interfaces typDef) of
            None \<Rightarrow> [] | Some iface \<Rightarrow> iface)"
  using parentInterface_loop_find [OF assms, of fieldName]
  by (cases "def_Interfaces typDef") (simp_all add: parentInterface_def)

theorem parentInterface_first_declaring_witness:
  "parentInterface ex_schema ex_Human ''name'' = Inr ''Character'' \<and>
   parentInterface ex_schema ex_Human ''age'' = Inr [] \<and>
   parentInterface ex_schema ex_Character ''name'' = Inr []"
proof -
  have h: "\<forall>iface \<in> set (def_Interfaces ex_Human). map_of (Types ex_schema) iface \<noteq> None"
    by (simp add: ex_defs)
  have c: "\<forall>iface \<in> set (def_Interfaces ex_Character). map_of (Types ex_schema) iface \<noteq> None"
    by (simp add: ex_defs)
  from parentInterface_first_declaring [OF h, of "''name''"]
    parentInterface_first_declaring [OF h, of "''age''"]
    parentInterface_first_declaring [OF c, of "''name''"]
  show ?thesis by (simp add: ex_defs declaresField_def)
qed

subsection \<open>\<^verbatim>\<open>DgraphMapping\<close>\<close>

lemma strings_del_payload:
  "strings_HasPrefix (del @ X @ payload) del"
  "strings_HasSuffix (del @ X @ payload) payload"
  "strings_TrimSuffix (strings_TrimPrefix (del @ X @ payload) del) payload = X"
  by (simp_all add: strings_HasPrefix_def strings_HasSuffix_def strings_TrimPrefix_def
        strings_TrimSuffix_def)

lemma DgraphMapping_fields_mem:
  "DgraphMapping_fields sch orig tn it flds = Inr ws \<Longrightarrow> fld \<in> set flds \<Longrightarrow>
   parentInterface sch it (fld_Name fld) = Inr p \<Longrightarrow>
   (def_Name orig @ fld_Name fld, (if p \<noteq> [] then p else tn) @ ''.'' @ fld_Name fld) \<in> set ws"
  by (induction flds arbitrary: ws) (auto simp: Let_def split: sum.splits)

lemma DgraphMapping_types_mem:
  "DgraphMapping_types sch defs = Inr ws \<Longrightarrow> d \<in> set defs \<Longrightarrow>
   \<exists>wd. DgraphMapping_type sch d = Inr wd \<and> set wd \<subseteq> set ws"
proof (induction defs arbitrary: ws)
  case Nil
  then show ?case by simp
next
  case (Cons a defs)
  from Cons.prems(1) obtain wa wr where
    a: "DgraphMapping_type sch a = Inr wa" and
    r: "DgraphMapping_types sch defs = Inr wr" and
    e: "ws = wa @ wr"
    by (auto split: sum.splits)
  show ?case
  proof (cases "d = a")
    case True
    then show ?thesis using a e by auto
  next
    case False
    with Cons.prems(2) have "d \<in> set defs" by simp
    from Cons.IH [OF r this] show ?thesis using e by auto
  qed
qed

lemma foldl_assign: "foldl assign m ws = m ++ map_of (rev ws)"
  by (induction ws arbitrary: m) (auto simp: assign_def map_add_def fun_eq_iff split: option.splits)

lemma DgraphMapping_at_distinct:
  assumes "DgraphMapping_assignments sch = Inr ws" "distinct (map fst ws)" "(k, v) \<in> set ws"
  shows "DgraphMapping_at sch k = Inr (Some v)"
proof -
  have "distinct (map fst (rev ws))" using assms(2) by (simp add: rev_map [symmetric])
  moreover have "(k, v) \<in> set (rev ws)" using assms(3) by simp
  ultimately have "map_of (rev ws) k = Some v" by (rule map_of_is_SomeI)
  then show ?thesis
    using assms(1) by (simp add: DgraphMapping_at_def DgraphMapping_def foldl_assign)
qed

lemmas DgraphMapping_defs = DgraphMapping_at_def DgraphMapping_def DgraphMapping_assignments_def
  DgraphMapping_type_def DgraphMapping_skips_def parentInterface_def strings_HasPrefix_def
  strings_HasSuffix_def strings_TrimPrefix_def strings_TrimSuffix_def del_def payload_def
  assign_def Let_def

lemma ex_assignments: "DgraphMapping_assignments ex_schema = Inr ex_assigned"
  by (simp add: ex_defs ex_assigned_def DgraphMapping_defs)

text \<open>
  Claim C2, as amended. \<^verbatim>\<open>DgraphMapping\<close> resolves a type back to an original type only
  when its name has both the prefix \<^verbatim>\<open>Delete\<close> and the suffix \<^verbatim>\<open>Payload\<close>. For a type \<open>W\<close>
  of the schema named \<^verbatim>\<open>Delete<X>Payload\<close> that the loop does not skip, where \<open>X\<close> is a
  type of the schema, and for every field of \<open>X\<close>: when the run does not panic and no two
  assignments of the run share a key, the returned map sends the name of \<open>W\<close> followed by
  the field name to \<^verbatim>\<open><namespace>.<field>\<close>, the namespace being the interface that
  \<^verbatim>\<open>parentInterface\<close> finds for the field in \<open>X\<close>, or \<open>X\<close> when it finds none; and when \<open>X\<close>
  is itself processed under its own name, the key of \<open>X\<close> and the field maps to the same
  predicate.
\<close>

theorem DgraphMapping_delete_payload:
  assumes run: "DgraphMapping_assignments sch = Inr ws"
    and nocoll: "distinct (map fst ws)"
    and W: "(k, W) \<in> set (Types sch)" "\<not> DgraphMapping_skips W"
      "def_Name W = ''Delete'' @ X @ ''Payload''"
    and X: "map_of (Types sch) X = Some xd" "fld \<in> set (def_Fields xd)"
      "parentInterface sch xd (fld_Name fld) = Inr parentInt"
  shows "DgraphMapping_at sch (def_Name W @ fld_Name fld) =
           Inr (Some ((if parentInt \<noteq> [] then parentInt else X) @ ''.'' @ fld_Name fld)) \<and>
         (def_Name xd = X \<and> \<not> DgraphMapping_skips xd \<and>
          \<not> (strings_HasPrefix X ''Delete'' \<and> strings_HasSuffix X ''Payload'') \<longrightarrow>
            DgraphMapping_at sch (X @ fld_Name fld) =
              DgraphMapping_at sch (def_Name W @ fld_Name fld))"
proof -
  let ?v = "(if parentInt \<noteq> [] then parentInt else X) @ ''.'' @ fld_Name fld"
  have Wn: "def_Name W = del @ X @ payload" using W(3) by (simp add: del_def payload_def)
  have Win: "W \<in> set (map snd (Types sch))" using W(1) by force
  from run Win obtain wd where wd: "DgraphMapping_type sch W = Inr wd" "set wd \<subseteq> set ws"
    unfolding DgraphMapping_assignments_def by (blast dest: DgraphMapping_types_mem)
  have "DgraphMapping_fields sch W X xd (def_Fields xd) = Inr wd"
    using wd(1) W(2) X(1) by (simp add: DgraphMapping_type_def Wn strings_del_payload Let_def)
  from DgraphMapping_fields_mem [OF this X(2) X(3)]
  have "(def_Name W @ fld_Name fld, ?v) \<in> set ws" using wd(2) by blast
  from DgraphMapping_at_distinct [OF run nocoll this]
  have first: "DgraphMapping_at sch (def_Name W @ fld_Name fld) = Inr (Some ?v)" .
  have second: "DgraphMapping_at sch (X @ fld_Name fld) = Inr (Some ?v)"
    if own: "def_Name xd = X" "\<not> DgraphMapping_skips xd"
      "\<not> (strings_HasPrefix X ''Delete'' \<and> strings_HasSuffix X ''Payload'')"
  proof -
    have "(X, xd) \<in> set (Types sch)" using X(1) by (rule map_of_SomeD)
    then have "xd \<in> set (map snd (Types sch))" by force
    with run obtain wx where wx: "DgraphMapping_type sch xd = Inr wx" "set wx \<subseteq> set ws"
      unfolding DgraphMapping_assignments_def by (blast dest: DgraphMapping_types_mem)
    have "DgraphMapping_fields sch xd X xd (def_Fields xd) = Inr wx"
      using wx(1) own by (auto simp: DgraphMapping_type_def Let_def del_def payload_def)
    from DgraphMapping_fields_mem [OF this X(2) X(3)]
    have "(X @ fld_Name fld, ?v) \<in> set ws" using wx(2) own(1) by auto
    from DgraphMapping_at_distinct [OF run nocoll this] show ?thesis .
  qed
  show ?thesis using first second by simp
qed

theorem DgraphMapping_delete_payload_witness:
  "DgraphMapping_at ex_schema ''DeleteHumanPayloadname'' = Inr (Some ''Character.name'') \<and>
   DgraphMapping_at ex_schema ''Humanname'' = Inr (Some ''Character.name'') \<and>
   DgraphMapping_at ex_schema ''DeleteHumanPayloadage'' = Inr (Some ''Human.age'') \<and>
   DgraphMapping_at ex_schema ''Humanage'' = Inr (Some ''Human.age'')"
proof -
  have nocoll: "distinct (map fst ex_assigned)"
    by (simp add: ex_assigned_def)
  have W: "(''DeleteHumanPayload'', ex_DeleteHumanPayload) \<in> set (Types ex_schema)"
    "\<not> DgraphMapping_skips ex_DeleteHumanPayload"
    "def_Name ex_DeleteHumanPayload = ''Delete'' @ ''Human'' @ ''Payload''"
    by (simp_all add: ex_defs DgraphMapping_skips_def)
  have X: "map_of (Types ex_schema) ''Human'' = Some ex_Human"
    "ex_name \<in> set (def_Fields ex_Human)" "ex_age \<in> set (def_Fields ex_Human)"
    by (simp_all add: ex_schema_def ex_Human_def)
  have p: "parentInterface ex_schema ex_Human (fld_Name ex_name) = Inr ''Character''"
    "parentInterface ex_schema ex_Human (fld_Name ex_age) = Inr []"
    by (simp_all add: ex_defs parentInterface_def)
  have own: "def_Name ex_Human = ''Human''" "\<not> DgraphMapping_skips ex_Human"
    "\<not> (strings_HasPrefix ''Human'' ''Delete'' \<and> strings_HasSuffix ''Human'' ''Payload'')"
    by (simp_all add: ex_defs DgraphMapping_skips_def strings_HasPrefix_def)
  from DgraphMapping_delete_payload [OF ex_assignments nocoll W X(1) X(2) p(1)]
    DgraphMapping_delete_payload [OF ex_assignments nocoll W X(1) X(3) p(2)] own
  show ?thesis by (simp add: ex_defs)
qed

theorem DgraphMapping_payload_counterexample:
  "DgraphMapping_at ex_schema_payload ''HumanPayloadname'' = Inr (Some ''HumanPayload.name'') \<and>
   DgraphMapping_at ex_schema_payload ''Humanname'' = Inr (Some ''Character.name'')"
  by (simp add: ex_defs DgraphMapping_defs)

text \<open>
  The loop runs over the fields of the original type, not over those of the wrapper:
  the field \<^verbatim>\<open>msg\<close> of \<^verbatim>\<open>DeleteHumanPayload\<close> itself gets no key.
\<close>

lemma DgraphMapping_wrapper_own_field:
  "DgraphMapping_at ex_schema ''DeleteHumanPayloadmsg'' = Inr None"
  by (simp add: ex_defs DgraphMapping_defs)

subsection \<open>\<^verbatim>\<open>genDgSchema\<close>: the index of a field\<close>

text \<open>
  \<^verbatim>\<open>ForName\<close> returns the first entry of the name: the entry before which no entry has
  that name, and \<^verbatim>\<open>nil\<close> when no entry has it.
\<close>

lemma Directives_ForName_first:
  "ds = before @ d # after \<Longrightarrow> \<forall>d' \<in> set before. dir_Name d' \<noteq> n \<Longrightarrow> dir_Name d = n \<Longrightarrow>
   Directives_ForName ds n = Some d"
  by (induction before arbitrary: ds) (simp_all add: Directives_ForName_def)

lemma Directives_ForName_none:
  "\<forall>d \<in> set ds. dir_Name d \<noteq> n \<Longrightarrow> Directives_ForName ds n = None"
  by (simp add: Directives_ForName_def find_None_iff)

lemma Arguments_ForName_first:
  "args = before @ a # after \<Longrightarrow> \<forall>a' \<in> set before. arg_Name a' \<noteq> n \<Longrightarrow> arg_Name a = n \<Longrightarrow>
   Arguments_ForName args n = Some a"
  by (induction before arbitrary: args) (simp_all add: Arguments_ForName_def)

lemma Arguments_ForName_none:
  "\<forall>a \<in> set args. arg_Name a \<noteq> n \<Longrightarrow> Arguments_ForName args n = None"
  by (simp add: Arguments_ForName_def find_None_iff)

text \<open>
  A field of type \<^verbatim>\<open>ID\<close> is passed over: the loop body writes nothing for it, whatever
  its directives.
\<close>

lemma genDgSchema_field_ID:
  "Type_Name (fld_Type f) = Inr ''ID'' \<Longrightarrow> genDgSchema_field_preds T gqlSch def f = Inr []"
  by (simp add: genDgSchema_field_preds_def genDgSchema_field_def Builder_String_def)

text \<open>
  Claim C4, as amended. Take a field whose type is not \<^verbatim>\<open>ID\<close>, in a loop body that does
  not panic. When \<^verbatim>\<open>parentInterface\<close> finds an interface for the field, the body writes
  no standalone declaration for it, so no index, whatever the directives of the field.
  When the field is the type's own, the declaration written to \<^verbatim>\<open>preds\<close> is determined by
  the kind of the field's type:
  \<^item> Object: the reference type and no index;
  \<^item> Scalar, where the first directive named \<^verbatim>\<open>searchableDirective\<close> has a first
    argument named \<^verbatim>\<open>searchableArg\<close>: the storage type of the scalar, followed by
    \<^verbatim>\<open>@index(<raw value of that argument>)\<close>;
  \<^item> Scalar, where the first directive of that name has no argument of that name: the
    storage type, followed by \<^verbatim>\<open>@index(<default of the scalar>)\<close>;
  \<^item> Scalar, with no directive of that name: the storage type and no index;
  \<^item> Enum: always \<^verbatim>\<open>string @index(exact)\<close>.

  The storage type and the default are the entries of \<^verbatim>\<open>scalarToDgraph\<close> and
  \<^verbatim>\<open>defaultSearchables\<close> for the type name, the empty string when there is none. List
  types are wrapped in brackets.
\<close>

theorem genDgSchema_field_index:
  assumes "Type_Name (fld_Type f) = Inr typeName" and "typeName \<noteq> ''ID''"
    and "parentInterface gqlSch def (fld_Name f) = Inr parentInt"
    and "map_of (Types gqlSch) typeName = Some fieldTyp"
    and "pre = (if Elem (fld_Type f) \<noteq> None then ''['' else [])"
    and "suf = (if Elem (fld_Type f) \<noteq> None then '']'' else [])"
    and "pred = def_Name def @ ''.'' @ fld_Name f @ '': ''"
    and "storage = (case scalarToDgraph T typeName of None \<Rightarrow> [] | Some s \<Rightarrow> s)"
    and "dflt = (case defaultSearchables T typeName of None \<Rightarrow> [] | Some s \<Rightarrow> s)"
  shows
    "(parentInt \<noteq> [] \<longrightarrow> genDgSchema_field_preds T gqlSch def f = Inr []) \<and>
     (parentInt = [] \<and> def_Kind fieldTyp = Object \<longrightarrow>
        genDgSchema_field_preds T gqlSch def f = Inr (pred @ pre @ ''uid'' @ suf @ '' .\<newline>'')) \<and>
     (parentInt = [] \<and> def_Kind fieldTyp = Scalar \<and>
      fld_Directives f = ds @ searchable # ds' \<and>
      (\<forall>d \<in> set ds. dir_Name d \<noteq> searchableDirective T) \<and>
      dir_Name searchable = searchableDirective T \<and>
      dir_Arguments searchable = args @ arg # args' \<and>
      (\<forall>a \<in> set args. arg_Name a \<noteq> searchableArg T) \<and>
      arg_Name arg = searchableArg T \<longrightarrow>
        genDgSchema_field_preds T gqlSch def f =
          Inr (pred @ pre @ storage @ suf @ '' @index('' @ arg_ValueRaw arg @ '')'' @ '' .\<newline>'')) \<and>
     (parentInt = [] \<and> def_Kind fieldTyp = Scalar \<and>
      fld_Directives f = ds @ searchable # ds' \<and>
      (\<forall>d \<in> set ds. dir_Name d \<noteq> searchableDirective T) \<and>
      dir_Name searchable = searchableDirective T \<and>
      (\<forall>a \<in> set (dir_Arguments searchable). arg_Name a \<noteq> searchableArg T) \<longrightarrow>
        genDgSchema_field_preds T gqlSch def f =
          Inr (pred @ pre @ storage @ suf @ '' @index('' @ dflt @ '')'' @ '' .\<newline>'')) \<and>
     (parentInt = [] \<and> def_Kind fieldTyp = Scalar \<and>
      (\<forall>d \<in> set (fld_Directives f). dir_Name d \<noteq> searchableDirective T) \<longrightarrow>
        genDgSchema_field_preds T gqlSch def f = Inr (pred @ pre @ storage @ suf @ '' .\<newline>'')) \<and>
     (parentInt = [] \<and> def_Kind fieldTyp = Enum \<longrightarrow>
        genDgSchema_field_preds T gqlSch def f = Inr (pred @ ''string @index(exact) .\<newline>''))"
proof -
  have inherited: "genDgSchema_field_preds T gqlSch def f = Inr []" if "parentInt \<noteq> []"
    using assms(1-4) that
    by (simp add: genDgSchema_field_preds_def genDgSchema_field_def Builder_String_def Let_def
          split: DefinitionKind.splits)
  have own: "genDgSchema_field_preds T gqlSch def f =
      (case def_Kind fieldTyp of
        Object \<Rightarrow> Inr (pred @ pre @ ''uid'' @ suf @ '' .\<newline>'')
      | Scalar \<Rightarrow> Inr (pred @ pre @ storage @ suf @ scalar_indexStr T f typeName @ '' .\<newline>'')
      | Enum \<Rightarrow> Inr (pred @ ''string @index(exact) .\<newline>'')
      | _ \<Rightarrow> Inr [])" if "parentInt = []"
    using assms(1-4) that
    unfolding assms(5-8)
    by (simp add: genDgSchema_field_preds_def genDgSchema_field_def Builder_String_def Let_def
          index_map_def split: DefinitionKind.splits)
  have explicit: "scalar_indexStr T f typeName = '' @index('' @ arg_ValueRaw arg @ '')''"
    if "fld_Directives f = ds @ searchable # ds'"
      "\<forall>d \<in> set ds. dir_Name d \<noteq> searchableDirective T"
      "dir_Name searchable = searchableDirective T"
      "dir_Arguments searchable = args @ arg # args'"
      "\<forall>a \<in> set args. arg_Name a \<noteq> searchableArg T"
      "arg_Name arg = searchableArg T"
    using Directives_ForName_first [OF that(1,2,3)] Arguments_ForName_first [OF that(4,5,6)]
    by (simp add: scalar_indexStr_def)
  have default: "scalar_indexStr T f typeName = '' @index('' @ dflt @ '')''"
    if "fld_Directives f = ds @ searchable # ds'"
      "\<forall>d \<in> set ds. dir_Name d \<noteq> searchableDirective T"
      "dir_Name searchable = searchableDirective T"
      "\<forall>a \<in> set (dir_Arguments searchable). arg_Name a \<noteq> searchableArg T"
    using Directives_ForName_first [OF that(1,2,3)] Arguments_ForName_none [OF that(4)] assms(9)
    by (simp add: scalar_indexStr_def index_map_def)
  have none: "scalar_indexStr T f typeName = []"
    if "\<forall>d \<in> set (fld_Directives f). dir_Name d \<noteq> searchableDirective T"
    using Directives_ForName_none [OF that] by (simp add: scalar_indexStr_def)
  show ?thesis
    using inherited own explicit default none by simp
qed


theorem genDgSchema_field_index_witness:
  "genDgSchema_field_preds ex_tables ex_schema_droid ex_Human ex_friends =
     Inr ''Human.friends: [uid] .\<newline>'' \<and>
   genDgSchema_field_preds ex_tables ex_schema_droid ex_Droid ex_model =
     Inr ''Droid.model: string @index(exact) .\<newline>'' \<and>
   genDgSchema_field_preds ex_tables ex_schema_droid ex_Human ex_age =
     Inr ''Human.age: int @index(int) .\<newline>'' \<and>
   genDgSchema_field_preds ex_tables ex_schema_droid ex_Droid ex_serial =
     Inr ''Droid.serial: string .\<newline>'' \<and>
   genDgSchema_field_preds ex_tables ex_schema_droid ex_Human ex_mood =
     Inr ''Human.mood: string @index(exact) .\<newline>'' \<and>
   genDgSchema_field_preds ex_tables ex_schema_droid ex_Droid ex_Droid_name = Inr []"
proof -
  have p: "parentInterface ex_schema_droid ex_Human (fld_Name ex_friends) = Inr []"
    "parentInterface ex_schema_droid ex_Droid (fld_Name ex_model) = Inr []"
    "parentInterface ex_schema_droid ex_Human (fld_Name ex_age) = Inr []"
    "parentInterface ex_schema_droid ex_Droid (fld_Name ex_serial) = Inr []"
    "parentInterface ex_schema_droid ex_Human (fld_Name ex_mood) = Inr []"
    "parentInterface ex_schema_droid ex_Droid (fld_Name ex_Droid_name) = Inr ''Being''"
    by (simp_all add: ex_defs ex_droid_defs ex_schema_def parentInterface_def)
  have n: "Type_Name (fld_Type ex_friends) = Inr ''Human''"
    "Type_Name (fld_Type ex_model) = Inr ''String''"
    "Type_Name (fld_Type ex_age) = Inr ''Int''"
    "Type_Name (fld_Type ex_serial) = Inr ''String''"
    "Type_Name (fld_Type ex_mood) = Inr ''Mood''"
    "Type_Name (fld_Type ex_Droid_name) = Inr ''String''"
    by (simp_all add: ex_defs ex_droid_defs)
  have t: "map_of (Types ex_schema_droid) ''Human'' = Some ex_Human"
    "map_of (Types ex_schema_droid) ''String'' = Some (ex_scalar ''String'')"
    "map_of (Types ex_schema_droid) ''Int'' = Some (ex_scalar ''Int'')"
    "map_of (Types ex_schema_droid) ''Mood'' = Some ex_Mood"
    by (simp_all add: ex_schema_droid_def ex_schema_def)
  have d: "''Human'' \<noteq> ''ID''" "''String'' \<noteq> ''ID''" "''Int'' \<noteq> ''ID''" "''Mood'' \<noteq> ''ID''"
    by simp_all
  have friends: "genDgSchema_field_preds ex_tables ex_schema_droid ex_Human ex_friends =
     Inr ''Human.friends: [uid] .\<newline>''"
    using genDgSchema_field_index [OF n(1) d(1) p(1) t(1) refl refl refl refl refl,
        where T = ex_tables]
    by (simp add: ex_defs)
  have model: "genDgSchema_field_preds ex_tables ex_schema_droid ex_Droid ex_model =
     Inr ''Droid.model: string @index(exact) .\<newline>''"
    using genDgSchema_field_index [OF n(2) d(2) p(2) t(2) refl refl refl refl refl,
        where T = ex_tables and ds = "[]" and searchable = ex_by_exact and ds' = "[]"
          and args = "[]" and arg = "\<lparr> arg_Name = ''by'', arg_ValueRaw = ''exact'' \<rparr>"
          and args' = "[]"]
    by (simp add: ex_defs ex_droid_defs ex_tables_def)
  have age: "genDgSchema_field_preds ex_tables ex_schema_droid ex_Human ex_age =
     Inr ''Human.age: int @index(int) .\<newline>''"
    using genDgSchema_field_index [OF n(3) d(3) p(3) t(3) refl refl refl refl refl,
        where T = ex_tables and ds = "[]"
          and searchable = "\<lparr> dir_Name = ''searchable'', dir_Arguments = [] \<rparr>" and ds' = "[]"]
    by (simp add: ex_defs ex_tables_def)
  have serial: "genDgSchema_field_preds ex_tables ex_schema_droid ex_Droid ex_serial =
     Inr ''Droid.serial: string .\<newline>''"
    using genDgSchema_field_index [OF n(4) d(2) p(4) t(2) refl refl refl refl refl,
        where T = ex_tables]
    by (simp add: ex_defs ex_droid_defs ex_tables_def)
  have mood: "genDgSchema_field_preds ex_tables ex_schema_droid ex_Human ex_mood =
     Inr ''Human.mood: string @index(exact) .\<newline>''"
    using genDgSchema_field_index [OF n(5) d(4) p(5) t(4) refl refl refl refl refl,
        where T = ex_tables]
    by (simp add: ex_defs)
  have name: "genDgSchema_field_preds ex_tables ex_schema_droid ex_Droid ex_Droid_name = Inr []"
    using genDgSchema_field_index [OF n(6) d(2) p(6) t(2) refl refl refl refl refl,
        where T = ex_tables]
    by simp
  from friends model age serial mood name show ?thesis by blast
qed

text \<open>
  As first stated, for every Scalar field with the directive and an explicit argument,
  the claim fails on an inherited field: \<^verbatim>\<open>Droid\<close> declares
  \<^verbatim>\<open>name: String @searchable(by: exact)\<close>, inherited from \<^verbatim>\<open>Being\<close>, whose own \<^verbatim>\<open>name\<close>
  has no directive. The body writes no declaration for the field of \<^verbatim>\<open>Droid\<close>, and the
  only declaration of the predicate in the output, \<^verbatim>\<open>Being.name: string .\<close>, has no index.
\<close>

theorem genDgSchema_inherited_index_counterexample:
  "ex_Droid_name \<in> set (def_Fields ex_Droid) \<and>
   fld_Type ex_Droid_name = Type ''String'' None \<and>
   map_option def_Kind (map_of (Types ex_schema_droid) ''String'') = Some Scalar \<and>
   fld_Directives ex_Droid_name =
     [\<lparr> dir_Name = searchableDirective ex_tables,
        dir_Arguments = [\<lparr> arg_Name = searchableArg ex_tables, arg_ValueRaw = ''exact'' \<rparr>] \<rparr>] \<and>
   genDgSchema_field_preds ex_tables ex_schema_droid ex_Droid ex_Droid_name = Inr [] \<and>
   genDgSchema ex_tables ex_schema_droid ex_definitions_droid = Inr
     (''type Being {\<newline>  Being.name: string\<newline>}\<newline>'' @
      ''Being.name: string .\<newline>'' @
      ''type Droid {\<newline>  Being.name: string\<newline>  Droid.model: string\<newline>'' @
      ''  Droid.serial: string\<newline>}\<newline>'' @
      ''Droid.model: string @index(exact) .\<newline>Droid.serial: string .\<newline>'')"
  by code_simp

subsection \<open>\<^verbatim>\<open>genDgSchema\<close>: fields inherited from an interface\<close>

lemma genDgSchema_field_declares:
  "genDgSchema_field T sch d f = Inr (t, p) \<Longrightarrow> e \<in> set p \<Longrightarrow>
   \<exists>s i. e = PredDecl (def_Name d) (fld_Name f) s i"
  by (auto simp: genDgSchema_field_def Let_def
      split: sum.splits if_splits option.splits DefinitionKind.splits)

lemma genDgSchema_field_inherited:
  "genDgSchema_field T sch d f = Inr (t, p) \<Longrightarrow> parentInterface sch d (fld_Name f) = Inr A \<Longrightarrow>
   A \<noteq> [] \<Longrightarrow> p = [] \<and> (\<forall>e \<in> set t. \<exists>s. e = TypeField A (fld_Name f) s)"
  by (auto simp: genDgSchema_field_def Let_def
      split: sum.splits if_splits option.splits DefinitionKind.splits)

lemma genDgSchema_field_own:
  "Type_Name (fld_Type f) = Inr tn \<Longrightarrow> tn \<noteq> ''ID'' \<Longrightarrow>
   parentInterface sch d (fld_Name f) = Inr [] \<Longrightarrow> map_of (Types sch) tn = Some td \<Longrightarrow>
   def_Kind td \<in> {Object, Scalar, Enum} \<Longrightarrow>
   \<exists>t s i. genDgSchema_field T sch d f = Inr (t, [PredDecl (def_Name d) (fld_Name f) s i])"
  by (auto simp: genDgSchema_field_def Let_def)

lemma genDgSchema_fields_mem:
  "genDgSchema_fields T sch d fs = Inr (ts, ps) \<Longrightarrow> f \<in> set fs \<Longrightarrow>
   \<exists>t p. genDgSchema_field T sch d f = Inr (t, p) \<and> set t \<subseteq> set ts \<and> set p \<subseteq> set ps"
proof (induction fs arbitrary: ts ps)
  case Nil
  then show ?case by simp
next
  case (Cons a fs)
  from Cons.prems(1) obtain t1 p1 ts' ps' where
    a: "genDgSchema_field T sch d a = Inr (t1, p1)" and
    r: "genDgSchema_fields T sch d fs = Inr (ts', ps')" and
    e: "ts = t1 @ ts'" "ps = p1 @ ps'"
    by (auto split: sum.splits)
  show ?case
  proof (cases "f = a")
    case True
    then show ?thesis using a e by auto
  next
    case False
    with Cons.prems(2) have "f \<in> set fs" by simp
    from Cons.IH [OF r this] show ?thesis using e by auto
  qed
qed

lemma genDgSchema_fields_declares:
  "genDgSchema_fields T sch d fs = Inr (ts, ps) \<Longrightarrow> e \<in> set ps \<Longrightarrow>
   \<exists>f \<in> set fs. \<exists>s i. e = PredDecl (def_Name d) (fld_Name f) s i"
proof (induction fs arbitrary: ts ps)
  case Nil
  then show ?case by simp
next
  case (Cons a fs)
  from Cons.prems(1) obtain t1 p1 ts' ps' where
    a: "genDgSchema_field T sch d a = Inr (t1, p1)" and
    r: "genDgSchema_fields T sch d fs = Inr (ts', ps')" and
    e: "ts = t1 @ ts'" "ps = p1 @ ps'"
    by (auto split: sum.splits)
  from Cons.prems(2) e consider "e \<in> set p1" | "e \<in> set ps'" by auto
  then show ?case
  proof cases
    case 1
    from genDgSchema_field_declares [OF a this] show ?thesis by auto
  next
    case 2
    from Cons.IH [OF r this] show ?thesis by auto
  qed
qed

lemma genDgSchema_fields_none:
  assumes "genDgSchema_fields T sch d fs = Inr (ts, ps)" "n \<notin> fld_Name ` set fs"
  shows "filter (declares tn n) ps = []"
proof -
  have "\<not> declares tn n e" if "e \<in> set ps" for e
    using genDgSchema_fields_declares [OF assms(1) that] assms(2) by auto
  then show ?thesis by (simp add: filter_empty_conv)
qed

lemma genDgSchema_fields_once:
  "genDgSchema_fields T sch d fs = Inr (ts, ps) \<Longrightarrow> distinct (map fld_Name fs) \<Longrightarrow>
   g \<in> set fs \<Longrightarrow>
   genDgSchema_field T sch d g = Inr (t, [PredDecl (def_Name d) (fld_Name g) s i]) \<Longrightarrow>
   length (filter (declares (def_Name d) (fld_Name g)) ps) = 1"
proof (induction fs arbitrary: ts ps)
  case Nil
  then show ?case by simp
next
  case (Cons a fs)
  from Cons.prems(1) obtain t1 p1 ts' ps' where
    a: "genDgSchema_field T sch d a = Inr (t1, p1)" and
    r: "genDgSchema_fields T sch d fs = Inr (ts', ps')" and
    e: "ts = t1 @ ts'" "ps = p1 @ ps'"
    by (auto split: sum.splits)
  show ?case
  proof (cases "g = a")
    case True
    with a Cons.prems(4) have p1: "p1 = [PredDecl (def_Name d) (fld_Name g) s i]" by simp
    from True Cons.prems(2) have "fld_Name g \<notin> fld_Name ` set fs" by auto
    from genDgSchema_fields_none [OF r this] show ?thesis using e p1 by simp
  next
    case False
    with Cons.prems(3) have gin: "g \<in> set fs" by simp
    with Cons.prems(2) have ne: "fld_Name a \<noteq> fld_Name g" by auto
    have "\<not> declares (def_Name d) (fld_Name g) x" if "x \<in> set p1" for x
      using genDgSchema_field_declares [OF a that] ne by auto
    then have "filter (declares (def_Name d) (fld_Name g)) p1 = []"
      by (simp add: filter_empty_conv)
    moreover from Cons.prems(2) have "distinct (map fld_Name fs)" by simp
    note Cons.IH [OF r this gin Cons.prems(4)]
    ultimately show ?thesis using e by simp
  qed
qed

lemma genDgSchema_types_block:
  "genDgSchema_types T sch defs = Inr tss \<Longrightarrow> (td, ps) \<in> set tss \<Longrightarrow>
   \<exists>k \<in> set defs. \<exists>d ts. map_of (Types sch) k = Some d \<and> hd td = TypeOpen (def_Name d) \<and>
      genDgSchema_fields T sch d (def_Fields d) = Inr (ts, ps)"
proof (induction defs arbitrary: tss)
  case Nil
  then show ?case by simp
next
  case (Cons key rest)
  from Cons.prems(1) obtain d where d: "map_of (Types sch) key = Some d"
    by (auto split: option.splits)
  show ?case
  proof (cases "def_Kind d = Object \<or> def_Kind d = Interface")
    case True
    with Cons.prems(1) d obtain ts1 ps1 tss' where
      f: "genDgSchema_fields T sch d (def_Fields d) = Inr (ts1, ps1)" and
      r: "genDgSchema_types T sch rest = Inr tss'" and
      e: "tss = (TypeOpen (def_Name d) # ts1 @ [TypeClose], ps1) # tss'"
      by (auto split: sum.splits)
    from Cons.prems(2) e consider "(td, ps) = (TypeOpen (def_Name d) # ts1 @ [TypeClose], ps1)"
      | "(td, ps) \<in> set tss'" by auto
    then show ?thesis
    proof cases
      case 1
      then show ?thesis using d f by auto
    next
      case 2
      from Cons.IH [OF r this] show ?thesis by auto
    qed
  next
    case False
    with Cons.prems(1) d have r: "genDgSchema_types T sch rest = Inr tss" by auto
    from Cons.IH [OF r Cons.prems(2)] show ?thesis by auto
  qed
qed

lemma genDgSchema_types_located:
  assumes "genDgSchema_types T sch defs = Inr tss"
    and names: "\<forall>(k, d) \<in> set (Types sch). def_Name d = k"
    and "(td, ps) \<in> set tss" "e \<in> set ps" "declares A n e"
  shows "hd td = TypeOpen A \<and> A \<in> set defs"
proof -
  from genDgSchema_types_block [OF assms(1) assms(3)] obtain k d ts where
    k: "k \<in> set defs" "map_of (Types sch) k = Some d" "hd td = TypeOpen (def_Name d)"
      "genDgSchema_fields T sch d (def_Fields d) = Inr (ts, ps)"
    by blast
  from k(2) have "(k, d) \<in> set (Types sch)" by (rule map_of_SomeD)
  with names have kd: "def_Name d = k" by auto
  from genDgSchema_fields_declares [OF k(4) assms(4)] assms(5) have "def_Name d = A" by auto
  with kd k show ?thesis by simp
qed

lemma genDgSchema_types_absent:
  assumes "genDgSchema_types T sch defs = Inr tss"
    and names: "\<forall>(k, d) \<in> set (Types sch). def_Name d = k"
    and "A \<notin> set defs"
  shows "filter (declares A n) (concat (map snd tss)) = []"
proof -
  have "\<not> declares A n e" if "e \<in> set (concat (map snd tss))" for e
  proof
    assume dec: "declares A n e"
    from that obtain td ps where "(td, ps) \<in> set tss" "e \<in> set ps" by auto
    from genDgSchema_types_located [OF assms(1) names this dec] assms(3) show False by simp
  qed
  then show ?thesis by (simp add: filter_empty_conv)
qed

lemma genDgSchema_types_once:
  "genDgSchema_types T sch defs = Inr tss \<Longrightarrow> \<forall>(k, d) \<in> set (Types sch). def_Name d = k \<Longrightarrow>
   distinct defs \<Longrightarrow> A \<in> set defs \<Longrightarrow> map_of (Types sch) A = Some adef \<Longrightarrow>
   def_Kind adef = Object \<or> def_Kind adef = Interface \<Longrightarrow>
   (\<And>ts ps. genDgSchema_fields T sch adef (def_Fields adef) = Inr (ts, ps) \<Longrightarrow>
      length (filter (declares A n) ps) = 1) \<Longrightarrow>
   length (filter (declares A n) (concat (map snd tss))) = 1"
proof (induction defs arbitrary: tss)
  case Nil
  then show ?case by simp
next
  case (Cons key rest)
  from Cons.prems(1) obtain d where d: "map_of (Types sch) key = Some d"
    by (auto split: option.splits)
  from d have "(key, d) \<in> set (Types sch)" by (rule map_of_SomeD)
  with Cons.prems(2) have kd: "def_Name d = key" by auto
  from Cons.prems(3) have dist: "distinct rest" and notin: "key \<notin> set rest" by simp_all
  show ?case
  proof (cases "key = A")
    case True
    with d Cons.prems(5) have da: "d = adef" by simp
    from True notin have Arest: "A \<notin> set rest" by simp
    from Cons.prems(1) d da Cons.prems(6) obtain ts1 ps1 tss' where
      f: "genDgSchema_fields T sch adef (def_Fields adef) = Inr (ts1, ps1)" and
      r: "genDgSchema_types T sch rest = Inr tss'" and
      e: "tss = (TypeOpen (def_Name adef) # ts1 @ [TypeClose], ps1) # tss'"
      by (auto split: sum.splits)
    from genDgSchema_types_absent [OF r Cons.prems(2) Arest]
    have "filter (declares A n) (concat (map snd tss')) = []" .
    with Cons.prems(7) [OF f] e show ?thesis by simp
  next
    case False
    with Cons.prems(4) have Ain: "A \<in> set rest" by simp
    show ?thesis
    proof (cases "def_Kind d = Object \<or> def_Kind d = Interface")
      case True
      with Cons.prems(1) d obtain ts1 ps1 tss' where
        f: "genDgSchema_fields T sch d (def_Fields d) = Inr (ts1, ps1)" and
        r: "genDgSchema_types T sch rest = Inr tss'" and
        e: "tss = (TypeOpen (def_Name d) # ts1 @ [TypeClose], ps1) # tss'"
        by (auto split: sum.splits)
      have "\<not> declares A n x" if "x \<in> set ps1" for x
        using genDgSchema_fields_declares [OF f that] kd False by auto
      then have "filter (declares A n) ps1 = []" by (simp add: filter_empty_conv)
      moreover note Cons.IH [OF r Cons.prems(2) dist Ain Cons.prems(5) Cons.prems(6) Cons.prems(7)]
      ultimately show ?thesis using e by simp
    next
      case False
      with Cons.prems(1) d have r: "genDgSchema_types T sch rest = Inr tss" by auto
      from Cons.IH [OF r Cons.prems(2) dist Ain Cons.prems(5) Cons.prems(6) Cons.prems(7)]
      show ?thesis .
    qed
  qed
qed

lemma genDgSchema_types_field:
  "genDgSchema_types T sch defs = Inr tss \<Longrightarrow> B \<in> set defs \<Longrightarrow>
   map_of (Types sch) B = Some bdef \<Longrightarrow> def_Kind bdef = Object \<or> def_Kind bdef = Interface \<Longrightarrow>
   \<exists>ts ps. genDgSchema_fields T sch bdef (def_Fields bdef) = Inr (ts, ps)"
proof (induction defs arbitrary: tss)
  case Nil
  then show ?case by simp
next
  case (Cons key rest)
  show ?case
  proof (cases "key = B")
    case True
    with Cons.prems show ?thesis by (auto split: sum.splits)
  next
    case False
    with Cons.prems(2) have "B \<in> set rest" by simp
    moreover from Cons.prems(1) obtain tss' where "genDgSchema_types T sch rest = Inr tss'"
      by (auto split: option.splits sum.splits if_splits)
    ultimately show ?thesis using Cons.IH Cons.prems(3,4) by blast
  qed
qed

text \<open>
  A run does not panic on a schema that resolves every name the run looks up: the
  definitions, the interfaces of each definition, and the type of each field other than
  \<^verbatim>\<open>ID\<close>.
\<close>

lemma genDgSchema_field_total:
  assumes "\<forall>iface \<in> set (def_Interfaces d). map_of (Types sch) iface \<noteq> None"
    and "Type_Name (fld_Type f) = Inr tn" and "tn \<noteq> ''ID'' \<longrightarrow> map_of (Types sch) tn \<noteq> None"
  shows "\<exists>t p. genDgSchema_field T sch d f = Inr (t, p)"
proof -
  from parentInterface_total [OF assms(1)] obtain pi where
    "parentInterface sch d (fld_Name f) = Inr pi" by blast
  with assms(2,3) show ?thesis
    by (cases "tn = ''ID''")
       (auto simp: genDgSchema_field_def Let_def split: DefinitionKind.splits)
qed

lemma genDgSchema_fields_total:
  assumes "\<forall>iface \<in> set (def_Interfaces d). map_of (Types sch) iface \<noteq> None"
    and "\<forall>f \<in> set fs. \<exists>tn. Type_Name (fld_Type f) = Inr tn \<and>
           (tn \<noteq> ''ID'' \<longrightarrow> map_of (Types sch) tn \<noteq> None)"
  shows "\<exists>ts ps. genDgSchema_fields T sch d fs = Inr (ts, ps)"
  using assms(2)
proof (induction fs)
  case Nil
  then show ?case by simp
next
  case (Cons f fs)
  from Cons.prems obtain tn where "Type_Name (fld_Type f) = Inr tn"
    "tn \<noteq> ''ID'' \<longrightarrow> map_of (Types sch) tn \<noteq> None" by auto
  from genDgSchema_field_total [OF assms(1) this] obtain t p where
    "genDgSchema_field T sch d f = Inr (t, p)" by blast
  moreover from Cons obtain ts ps where "genDgSchema_fields T sch d fs = Inr (ts, ps)" by auto
  ultimately show ?case by simp
qed

lemma genDgSchema_types_total:
  "\<forall>key \<in> set definitions. \<exists>d. map_of (Types sch) key = Some d \<and>
      (\<forall>iface \<in> set (def_Interfaces d). map_of (Types sch) iface \<noteq> None) \<and>
      (\<forall>f \<in> set (def_Fields d). \<exists>tn. Type_Name (fld_Type f) = Inr tn \<and>
         (tn \<noteq> ''ID'' \<longrightarrow> map_of (Types sch) tn \<noteq> None)) \<Longrightarrow>
   \<exists>typeStrings. genDgSchema_types T sch definitions = Inr typeStrings"
proof (induction definitions)
  case Nil
  then show ?case by simp
next
  case (Cons key rest)
  from Cons.prems obtain d where d: "map_of (Types sch) key = Some d"
    and i: "\<forall>iface \<in> set (def_Interfaces d). map_of (Types sch) iface \<noteq> None"
    and f: "\<forall>f \<in> set (def_Fields d). \<exists>tn. Type_Name (fld_Type f) = Inr tn \<and>
           (tn \<noteq> ''ID'' \<longrightarrow> map_of (Types sch) tn \<noteq> None)"
    by auto
  from Cons.prems Cons.IH obtain tss where r: "genDgSchema_types T sch rest = Inr tss" by auto
  from genDgSchema_fields_total [OF i f] obtain ts ps where
    "genDgSchema_fields T sch d (def_Fields d) = Inr (ts, ps)" by blast
  with d r show ?case by simp
qed

lemma ex_run: "genDgSchema_types ex_tables ex_schema ex_definitions = Inr ex_typeStrings"
  by code_simp

text \<open>
  Claim C3, as amended. Take a run of \<^verbatim>\<open>genDgSchema\<close> that does not panic, on a schema
  that stores every type under its name, with a list of definitions that names no type
  twice. Let \<open>B\<close> be a processed type with a field \<open>f\<close> for which \<^verbatim>\<open>parentInterface\<close> finds
  the interface \<open>A\<close>, where \<open>A\<close> is among the definitions, has no two fields of one name
  and declares the field itself with a type other than \<^verbatim>\<open>ID\<close> whose kind is Object,
  Scalar or Enum. Then the processing of \<open>B\<close> writes for \<open>f\<close> only type lines under the
  namespace \<open>A\<close> and no standalone declaration; the predicate \<^verbatim>\<open>A.f\<close> is declared exactly
  once in the whole output; and every block that declares it is the block of \<open>A\<close>.
\<close>

theorem genDgSchema_inherited_field_declared_once:
  assumes run: "genDgSchema_types T gqlSch definitions = Inr typeStrings"
    and names: "\<forall>(k, d) \<in> set (Types gqlSch). def_Name d = k"
    and dist: "distinct definitions"
    and B: "B \<in> set definitions" "map_of (Types gqlSch) B = Some bdef"
      "def_Kind bdef = Object \<or> def_Kind bdef = Interface" "f \<in> set (def_Fields bdef)"
    and inh: "parentInterface gqlSch bdef (fld_Name f) = Inr A" "A \<noteq> []"
    and A: "A \<in> set definitions" "map_of (Types gqlSch) A = Some adef"
      "def_Kind adef = Interface" "distinct (map fld_Name (def_Fields adef))"
      "parentInterface gqlSch adef (fld_Name f) = Inr []"
    and fa: "fa \<in> set (def_Fields adef)" "fld_Name fa = fld_Name f"
      "Type_Name (fld_Type fa) = Inr typeName" "typeName \<noteq> ''ID''"
      "map_of (Types gqlSch) typeName = Some fieldTyp"
      "def_Kind fieldTyp \<in> {Object, Scalar, Enum}"
  shows "(\<exists>t. genDgSchema_field T gqlSch bdef f = Inr (t, []) \<and>
              (\<forall>e \<in> set t. \<exists>typStr. e = TypeField A (fld_Name f) typStr)) \<and>
         declaration_count T gqlSch definitions A (fld_Name f) = Inr 1 \<and>
         (\<forall>(typeDef, preds) \<in> set typeStrings.
            (\<exists>e \<in> set preds. declares A (fld_Name f) e) \<longrightarrow> hd typeDef = TypeOpen A)"
proof -
  from genDgSchema_types_field [OF run B(1) B(2) B(3)] obtain ts ps where
    "genDgSchema_fields T gqlSch bdef (def_Fields bdef) = Inr (ts, ps)" by blast
  from genDgSchema_fields_mem [OF this B(4)] obtain t p where
    tp: "genDgSchema_field T gqlSch bdef f = Inr (t, p)" by blast
  from genDgSchema_field_inherited [OF tp inh]
  have first: "\<exists>t. genDgSchema_field T gqlSch bdef f = Inr (t, []) \<and>
              (\<forall>e \<in> set t. \<exists>typStr. e = TypeField A (fld_Name f) typStr)"
    using tp by auto
  from A(2) have "(A, adef) \<in> set (Types gqlSch)" by (rule map_of_SomeD)
  with names have An: "def_Name adef = A" by auto
  from A(5) fa(2) have pa: "parentInterface gqlSch adef (fld_Name fa) = Inr []" by simp
  from genDgSchema_field_own [OF fa(3) fa(4) pa fa(5) fa(6), of T] obtain t' s i where
    own: "genDgSchema_field T gqlSch adef fa = Inr (t', [PredDecl (def_Name adef) (fld_Name fa) s i])"
    by blast
  have once: "length (filter (declares A (fld_Name f)) ps') = 1"
    if "genDgSchema_fields T gqlSch adef (def_Fields adef) = Inr (ts', ps')" for ts' ps'
    using genDgSchema_fields_once [OF that A(4) fa(1) own] An fa(2) by simp
  have kind: "def_Kind adef = Object \<or> def_Kind adef = Interface" using A(3) by simp
  from genDgSchema_types_once [OF run names dist A(1) A(2) kind once]
  have second: "declaration_count T gqlSch definitions A (fld_Name f) = Inr 1"
    using run by (simp add: declaration_count_def genDgSchema_preds_def)
  have third: "\<forall>(typeDef, preds) \<in> set typeStrings.
            (\<exists>e \<in> set preds. declares A (fld_Name f) e) \<longrightarrow> hd typeDef = TypeOpen A"
    using genDgSchema_types_located [OF run names] by blast
  from first second third show ?thesis by blast
qed

theorem genDgSchema_inherited_field_declared_once_witness:
  "declaration_count ex_tables ex_schema ex_definitions ''Character'' ''name'' = Inr 1 \<and>
   genDgSchema_field ex_tables ex_schema ex_Human ex_name =
     Inr ([TypeField ''Character'' ''name'' ''string''], []) \<and>
   genDgSchema ex_tables ex_schema ex_definitions = Inr
     (''type Character {\<newline>  Character.name: string\<newline>}\<newline>'' @
      ''Character.name: string @index(term) .\<newline>'' @
      ''type Human {\<newline>  Character.name: string\<newline>  Human.age: int\<newline>'' @
      ''  Human.friends: [uid]\<newline>  Human.mood: string\<newline>}\<newline>'' @
      ''Human.age: int @index(int) .\<newline>Human.friends: [uid] .\<newline>'' @
      ''Human.mood: string @index(exact) .\<newline>'')"
proof -
  have names: "\<forall>(k, d) \<in> set (Types ex_schema). def_Name d = k"
    by (simp add: ex_defs)
  have dist: "distinct ex_definitions"
    by (simp add: ex_definitions_def)
  have B: "''Human'' \<in> set ex_definitions" "map_of (Types ex_schema) ''Human'' = Some ex_Human"
    "def_Kind ex_Human = Object \<or> def_Kind ex_Human = Interface"
    "ex_name \<in> set (def_Fields ex_Human)"
    by (simp_all add: ex_definitions_def ex_schema_def ex_Human_def)
  have inh: "parentInterface ex_schema ex_Human (fld_Name ex_name) = Inr ''Character''"
    "''Character'' \<noteq> []"
    by (simp_all add: ex_defs parentInterface_def)
  have A: "''Character'' \<in> set ex_definitions"
    "map_of (Types ex_schema) ''Character'' = Some ex_Character"
    "def_Kind ex_Character = Interface"
    "distinct (map fld_Name (def_Fields ex_Character))"
    "parentInterface ex_schema ex_Character (fld_Name ex_name) = Inr []"
    by (simp_all add: ex_defs parentInterface_def)
  have fa: "ex_Character_name \<in> set (def_Fields ex_Character)"
    "fld_Name ex_Character_name = fld_Name ex_name"
    "Type_Name (fld_Type ex_Character_name) = Inr ''String''" "''String'' \<noteq> ''ID''"
    "map_of (Types ex_schema) ''String'' = Some (ex_scalar ''String'')"
    "def_Kind (ex_scalar ''String'') \<in> {Object, Scalar, Enum}"
    by (simp_all add: ex_defs)
  have n: "fld_Name ex_name = ''name''"
    by (simp add: ex_name_def)
  have field: "genDgSchema_field ex_tables ex_schema ex_Human ex_name =
     Inr ([TypeField ''Character'' ''name'' ''string''], [])"
    by code_simp
  have whole: "genDgSchema ex_tables ex_schema ex_definitions = Inr
     (''type Character {\<newline>  Character.name: string\<newline>}\<newline>'' @
      ''Character.name: string @index(term) .\<newline>'' @
      ''type Human {\<newline>  Character.name: string\<newline>  Human.age: int\<newline>'' @
      ''  Human.friends: [uid]\<newline>  Human.mood: string\<newline>}\<newline>'' @
      ''Human.age: int @index(int) .\<newline>Human.friends: [uid] .\<newline>'' @
      ''Human.mood: string @index(exact) .\<newline>'')"
    unfolding genDgSchema_def ex_run by (simp add: ex_typeStrings_def Builder_String_def)
  from genDgSchema_inherited_field_declared_once
    [OF ex_run names dist B inh A fa, of ]
  have "declaration_count ex_tables ex_schema ex_definitions ''Character'' ''name'' = Inr 1"
    by (simp add: n)
  with field whole show ?thesis by blast
qed

theorem genDgSchema_id_field_counterexample:
  "ex_id \<in> set (def_Fields ex_Human) \<and>
   parentInterface ex_schema ex_Human (fld_Name ex_id) = Inr ''Character'' \<and>
   declaration_count ex_tables ex_schema ex_definitions ''Character'' (fld_Name ex_id) = Inr 0 \<and>
   declaration_count ex_tables ex_schema ex_definitions ''Human'' (fld_Name ex_id) = Inr 0"
  unfolding declaration_count_def genDgSchema_preds_def ex_run
  by (simp add: ex_defs ex_typeStrings_def parentInterface_def)

section \<open>Properties of the transaction gateway\<close>

subsection \<open>\<^verbatim>\<open>handleAbort\<close>\<close>

text \<open>
  Claim C1. \<^verbatim>\<open>handleAbort\<close> calls the commit of the engine with a transaction context
  that carries the start timestamp and the aborted flag, and maps the error of the call:
  \<^verbatim>\<open>dgo.ErrAborted\<close> gives the envelope with code \<^verbatim>\<open>Success\<close> and message \<^verbatim>\<open>Done\<close> and no
  error; \<^verbatim>\<open>nil\<close> gives the error "transaction could not be aborted"; every other error
  is returned as it is.
\<close>

theorem handleAbort_cases:
  fixes CommitOverNetwork :: "TxnContext \<Rightarrow> 64 word \<times> error option"
  assumes "snd (CommitOverNetwork \<lparr> txn_StartTs = startTs, txn_CommitTs = 0, txn_Aborted = True,
                 txn_Keys = [], txn_Preds = [] \<rparr>) = err"
  shows "(err = Some ErrAborted \<longrightarrow>
            handleAbort CommitOverNetwork startTs =
              Inr \<lparr> env_code = x_Success, env_message = ''Done'' \<rparr>) \<and>
         (err = None \<longrightarrow>
            handleAbort CommitOverNetwork startTs =
              Inl (Errorf ''transaction could not be aborted'')) \<and>
         (\<forall>e. err = Some e \<and> e \<noteq> ErrAborted \<longrightarrow> handleAbort CommitOverNetwork startTs = Inl e)"
  using assms by (auto simp: handleAbort_def split: option.splits error.splits)

theorem handleAbort_cases_witness:
  "handleAbort (ex_commit (Some ErrAborted)) 7 =
     Inr \<lparr> env_code = x_Success, env_message = ''Done'' \<rparr> \<and>
   handleAbort (ex_commit None) 7 = Inl (Errorf ''transaction could not be aborted'') \<and>
   handleAbort (ex_commit (Some (OtherError ''conflict''))) 7 = Inl (OtherError ''conflict'')"
proof -
  have c: "snd (ex_commit e \<lparr> txn_StartTs = 7, txn_CommitTs = 0, txn_Aborted = True,
                 txn_Keys = [], txn_Preds = [] \<rparr>) = e" for e
    by (simp add: ex_commit_def)
  from handleAbort_cases [of "ex_commit (Some ErrAborted)" 7 "Some ErrAborted", OF c]
    handleAbort_cases [of "ex_commit None" 7 None, OF c]
    handleAbort_cases [of "ex_commit (Some (OtherError ''conflict''))" 7
      "Some (OtherError ''conflict'')", OF c]
  show ?thesis by simp
qed

subsection \<open>\<^verbatim>\<open>readRequest\<close>\<close>

text \<open>
  Claim C10. When the \<^verbatim>\<open>Content-Encoding\<close> header is absent, empty or \<^verbatim>\<open>identity\<close>,
  \<^verbatim>\<open>readRequest\<close> reads the body as it is, whatever the decompressor would do; only the
  value \<^verbatim>\<open>gzip\<close> sends the body through the decompressor; every other value is rejected
  as an unsupported content encoding, whatever the body is.
\<close>

theorem readRequest_content_encoding:
  "(Header r ''Content-Encoding'' = None \<or> Header_Get r ''Content-Encoding'' = [] \<or>
    Header_Get r ''Content-Encoding'' = ''identity'' \<longrightarrow>
      readRequest gzip_NewReader r =
        (case Body r of
           Inl err \<Rightarrow> Inl (SetStatus x_ErrorInvalidRequest (ErrorText err))
         | Inr body \<Rightarrow> Inr body)) \<and>
   (Header_Get r ''Content-Encoding'' = ''gzip'' \<longrightarrow>
      readRequest gzip_NewReader r =
        (case gzip_NewReader (Body r) of
           Inl err \<Rightarrow> Inl (SetStatus x_Error (Text ''Unable to create decompressor''))
         | Inr gz \<Rightarrow>
             (case gz of
                Inl err \<Rightarrow> Inl (SetStatus x_ErrorInvalidRequest (ErrorText err))
              | Inr body \<Rightarrow> Inr body))) \<and>
   (Header_Get r ''Content-Encoding'' \<noteq> [] \<and> Header_Get r ''Content-Encoding'' \<noteq> ''identity'' \<and>
    Header_Get r ''Content-Encoding'' \<noteq> ''gzip'' \<longrightarrow>
      readRequest gzip_NewReader r =
        Inl (SetStatus x_ErrorInvalidRequest (Text ''Unsupported content encoding'')))"
  by (auto simp: readRequest_def Let_def Header_Get_def)

theorem readRequest_content_encoding_witness:
  "readRequest ex_gunzip (ex_request [] [] (Inr ''gzabc'')) = Inr ''gzabc'' \<and>
   readRequest ex_gunzip (ex_request [] [(''Content-Encoding'', ''identity'')] (Inr ''gzabc'')) =
     Inr ''gzabc'' \<and>
   readRequest ex_gunzip (ex_request [] [(''Content-Encoding'', ''gzip'')] (Inr ''gzabc'')) =
     Inr ''abc'' \<and>
   readRequest ex_gunzip (ex_request [] [(''Content-Encoding'', ''deflate'')] (Inr ''gzabc'')) =
     Inl (SetStatus x_ErrorInvalidRequest (Text ''Unsupported content encoding''))"
  using readRequest_content_encoding [of "ex_request [] [] (Inr ''gzabc'')" ex_gunzip]
    readRequest_content_encoding
      [of "ex_request [] [(''Content-Encoding'', ''identity'')] (Inr ''gzabc'')" ex_gunzip]
    readRequest_content_encoding
      [of "ex_request [] [(''Content-Encoding'', ''gzip'')] (Inr ''gzabc'')" ex_gunzip]
    readRequest_content_encoding
      [of "ex_request [] [(''Content-Encoding'', ''deflate'')] (Inr ''gzabc'')" ex_gunzip]
  by (simp add: ex_request_def ex_gunzip_def Header_Get_def)

subsection \<open>\<^verbatim>\<open>queryHandler\<close>\<close>

lemma parseBool_true: "Query_Get r name = ''true'' \<Longrightarrow> parseBool r name = Inr True"
  by (simp add: parseBool_def strconv_ParseBool_def)

text \<open>
  Claim C8. With a zero start timestamp: \<^verbatim>\<open>be=true\<close> in the query string sets both the
  best-effort and the read-only flag of the request sent to the engine, and \<^verbatim>\<open>ro=true\<close>
  sets the read-only flag, whenever the other flag parses, so that a request is sent at
  all; and every request that is sent has the best-effort flag equal to the parsed \<^verbatim>\<open>be\<close>
  and the read-only flag equal to the disjunction of the parsed \<^verbatim>\<open>be\<close> and \<^verbatim>\<open>ro\<close>, so
  that \<^verbatim>\<open>ro\<close> is honoured whatever \<^verbatim>\<open>be\<close> is.
\<close>

theorem queryHandler_request_flags:
  "(Query_Get r ''be'' = ''true'' \<and> parseBool r ''ro'' = Inr ro \<longrightarrow>
      (\<exists>req. queryHandler_request r q vars 0 = Inr req \<and> req_BestEffort req \<and> req_ReadOnly req)) \<and>
   (Query_Get r ''ro'' = ''true'' \<and> parseBool r ''be'' = Inr be \<longrightarrow>
      (\<exists>req. queryHandler_request r q vars 0 = Inr req \<and> req_ReadOnly req \<and>
         req_BestEffort req = be)) \<and>
   (\<forall>req. queryHandler_request r q vars 0 = Inr req \<longrightarrow>
      (\<exists>be ro. parseBool r ''be'' = Inr be \<and> parseBool r ''ro'' = Inr ro \<and>
         req_BestEffort req = be \<and> req_ReadOnly req = (be \<or> ro)))"
  by (auto simp: queryHandler_request_def Let_def parseBool_true split: sum.splits)

theorem queryHandler_request_flags_witness:
  "queryHandler_request (ex_request [(''be'', ''true'')] [] (Inr [])) ''{ q(func: has(name)) { name } }'' [] 0 =
     Inr \<lparr> req_StartTs = 0, req_Query = ''{ q(func: has(name)) { name } }'', req_Vars = [],
           req_ReadOnly = True, req_BestEffort = True, req_CommitNow = False \<rparr> \<and>
   queryHandler_request (ex_request [(''ro'', ''true'')] [] (Inr [])) ''{ q(func: has(name)) { name } }'' [] 0 =
     Inr \<lparr> req_StartTs = 0, req_Query = ''{ q(func: has(name)) { name } }'', req_Vars = [],
           req_ReadOnly = True, req_BestEffort = False, req_CommitNow = False \<rparr>"
  using queryHandler_request_flags [of "ex_request [(''be'', ''true'')] [] (Inr [])" False
      "''{ q(func: has(name)) { name } }''" "[]" False]
    queryHandler_request_flags [of "ex_request [(''ro'', ''true'')] [] (Inr [])" False
      "''{ q(func: has(name)) { name } }''" "[]" False]
  by (simp add: ex_request_def queryHandler_request_def parseBool_def Query_Get_def
      strconv_ParseBool_def Let_def)

subsection \<open>\<^verbatim>\<open>mutationHandler\<close>\<close>

lemma mutationHandler_response_txn:
  assumes "mutationHandler_response json_Marshal commitNow parsingNs resp = Inr rsp"
  shows "\<exists>txn0 txn. resp_Txn resp = Some txn0 \<and> ext_Txn (extensions rsp) = Some txn \<and>
           txn_Preds txn = sort_Strings (txn_Preds txn0) \<and>
           txn_Keys txn = (if commitNow then [] else sort_Strings (txn_Keys txn0))"
  using assms
  by (auto simp: mutationHandler_response_def Let_def
      split: option.splits sum.splits if_splits list.splits)

text \<open>
  Claim C6. In every response that \<^verbatim>\<open>mutationHandler\<close> assembles, the affected predicates
  of the transaction metadata are the engine's predicates in sorted order and the
  conflict keys are sorted; when the query string carries \<^verbatim>\<open>commitNow=true\<close> the list of
  conflict keys is empty, whatever keys the engine returned, and when it carries no
  \<^verbatim>\<open>commitNow\<close> the keys are the engine's keys in sorted order.
\<close>

theorem mutationHandler_reply_sorted:
  assumes "mutationHandler_reply r json_Marshal parsingNs resp = Inr rsp"
  shows "\<exists>txn0 txn. resp_Txn resp = Some txn0 \<and> ext_Txn (extensions rsp) = Some txn \<and>
           sorted (txn_Keys txn) \<and> sorted (txn_Preds txn) \<and>
           txn_Preds txn = sort_Strings (txn_Preds txn0) \<and>
           (Query_Get r ''commitNow'' = ''true'' \<longrightarrow> txn_Keys txn = []) \<and>
           (Query_Get r ''commitNow'' = [] \<longrightarrow> txn_Keys txn = sort_Strings (txn_Keys txn0))"
proof -
  from assms obtain commitNow where
    p: "parseBool r ''commitNow'' = Inr commitNow" and
    m: "mutationHandler_response json_Marshal commitNow parsingNs resp = Inr rsp"
    by (auto simp: mutationHandler_reply_def split: sum.splits)
  from mutationHandler_response_txn [OF m] obtain txn0 txn where
    t: "resp_Txn resp = Some txn0" "ext_Txn (extensions rsp) = Some txn"
       "txn_Preds txn = sort_Strings (txn_Preds txn0)"
       "txn_Keys txn = (if commitNow then [] else sort_Strings (txn_Keys txn0))"
    by blast
  have "Query_Get r ''commitNow'' = ''true'' \<longrightarrow> commitNow"
    using p by (auto simp: parseBool_def strconv_ParseBool_def)
  moreover have "Query_Get r ''commitNow'' = [] \<longrightarrow> \<not> commitNow"
    using p by (auto simp: parseBool_def)
  ultimately show ?thesis
    using t by (auto simp: sort_Strings_def)
qed

theorem mutationHandler_reply_sorted_witness:
  "mutationHandler_reply (ex_request [(''commitNow'', ''true'')] [] (Inr [])) ex_marshal 10
     (ex_response ''{}'') = Inr ex_reply \<and>
   (\<exists>txn. ext_Txn (extensions ex_reply) = Some txn \<and> txn_Keys txn = [] \<and>
      txn_Preds txn = [''age'', ''name''] \<and> sorted (txn_Preds txn)) \<and>
   mutationHandler_reply (ex_request [] [] (Inr [])) ex_marshal 10 (ex_response ''{}'') =
     Inr (ex_reply_keys [''k1'', ''k10'', ''k2''])"
proof -
  have e: "mutationHandler_reply (ex_request [(''commitNow'', ''true'')] [] (Inr [])) ex_marshal 10
     (ex_response ''{}'') = Inr ex_reply"
    by (simp add: mutationHandler_reply_def mutationHandler_response_def ex_request_def
        ex_marshal_def ex_response_def ex_reply_def ex_reply_keys_def parseBool_def Query_Get_def
        strconv_ParseBool_def sort_Strings_def Let_def)
  have q: "Query_Get (ex_request [(''commitNow'', ''true'')] [] (Inr [])) ''commitNow'' = ''true''"
    by (simp add: ex_request_def Query_Get_def)
  have e': "mutationHandler_reply (ex_request [] [] (Inr [])) ex_marshal 10 (ex_response ''{}'') =
     Inr (ex_reply_keys [''k1'', ''k10'', ''k2''])"
    by (simp add: mutationHandler_reply_def mutationHandler_response_def ex_request_def
        ex_marshal_def ex_response_def ex_reply_keys_def parseBool_def Query_Get_def
        strconv_ParseBool_def sort_Strings_def Let_def)
  have q': "Query_Get (ex_request [] [] (Inr [])) ''commitNow'' = []"
    by (simp add: ex_request_def Query_Get_def)
  from mutationHandler_reply_sorted [OF e] mutationHandler_reply_sorted [OF e'] q q' e e'
  show ?thesis
    by (auto simp: ex_response_def sort_Strings_def)
qed

text \<open>
  Claim C7. When the engine's result payload is longer than two bytes and ends with a
  closing brace, the \<^verbatim>\<open>data\<close> field of the response is the payload without its last byte,
  a comma, and the serialized \<^verbatim>\<open>{code, message, uids}\<close> object without its first byte;
  otherwise the \<^verbatim>\<open>data\<close> field is the \<^verbatim>\<open>{code, message, uids}\<close> object itself.
\<close>

theorem mutationHandler_response_data:
  assumes "resp_Latency resp \<noteq> None" and "resp_Txn resp \<noteq> None"
  shows "(length (resp_Json resp) > 2 \<and> last (resp_Json resp) = CHR ''}'' \<and>
          json_Marshal \<lparr> mp_code = x_Success, mp_message = ''Done'', mp_uids = resp_Uids resp \<rparr>
            = Inr d \<and> d \<noteq> [] \<longrightarrow>
            map_sum id data (mutationHandler_response json_Marshal commitNow parsingNs resp) =
              Inr (RawMessage (butlast (resp_Json resp) @ '','' @ tl d))) \<and>
         (\<not> (length (resp_Json resp) > 2 \<and> last (resp_Json resp) = CHR ''}'') \<longrightarrow>
            map_sum id data (mutationHandler_response json_Marshal commitNow parsingNs resp) =
              Inr (MapValue \<lparr> mp_code = x_Success, mp_message = ''Done'',
                              mp_uids = resp_Uids resp \<rparr>))"
  using assms
  by (cases "resp_Json resp = []")
     (auto simp: mutationHandler_response_def Let_def last_conv_nth butlast_conv_take
           split: option.splits sum.splits list.splits)

theorem mutationHandler_response_data_witness:
  \<open>map_sum id data (mutationHandler_response ex_marshal False 10 (ex_response ''{"q":[]}'')) =
     Inr (RawMessage ''{"q":[],"code":"Success","message":"Done","uids":{}}'') \<and>
   map_sum id data (mutationHandler_response ex_marshal False 10 (ex_response ''{}'')) =
     Inr (MapValue \<lparr> mp_code = x_Success, mp_message = ''Done'', mp_uids = [] \<rparr>)\<close>
proof -
  have h: "resp_Latency (ex_response js) \<noteq> None" "resp_Txn (ex_response js) \<noteq> None" for js
    by (simp_all add: ex_response_def)
  from mutationHandler_response_data
    [OF h, of \<open>''{"q":[]}''\<close> ex_marshal \<open>''{"code":"Success","message":"Done","uids":{}}''\<close> False 10]
    mutationHandler_response_data [OF h, of "''{}''" ex_marshal "[]" False 10]
  show ?thesis
    by (simp add: ex_response_def ex_marshal_def)
qed

subsection \<open>\<^verbatim>\<open>jsonLineAndChar\<close> and \<^verbatim>\<open>convertJSONError\<close>\<close>

text \<open>
  The example of the specification: for the body \<^verbatim>\<open>{"query": }\<close> and the offset 11 the
  error cites line 1 and character 11, the column of the closing brace.
\<close>

lemma convertJSONError_example:
  \<open>jsonLineAndChar ''{"query": }'' 11 = Inr (1, 11) \<and>
   convertJSONError ''{"query": }''
     (Some (SyntaxError ''invalid character '}' looking for beginning of value'' 11)) =
   Some (Errorf (''Error parsing JSON at line 1, character 11: '' @
                 ''invalid character '}' looking for beginning of value\<newline>''))\<close>
  by (simp add: convertJSONError_def jsonLineAndChar_def utf8_width_def in_range_def Let_def
      itoa_def)

text \<open>
  On an input of ASCII bytes every rune is one byte wide, and for an offset within the
  input the loop computes the position the specification describes, scanning the bytes
  up to and including the one at the offset.
\<close>

lemma utf8_width_ascii: "(of_char c :: nat) < 0x80 \<Longrightarrow> utf8_width (c # cs) = 1"
  by (simp add: utf8_width_def)

lemma jsonLineAndChar_loop_ascii:
  "\<forall>c \<in> set s. (of_char c :: nat) < 0x80 \<Longrightarrow> i \<le> offset \<Longrightarrow>
   jsonLineAndChar_loop s i offset line ch =
     scan_position (take (nat (offset - i) + 1) s) (line, ch)"
proof (induction s arbitrary: i line ch)
  case Nil
  then show ?case by simp
next
  case (Cons c cs)
  have w: "utf8_width (c # cs) = 1" using Cons.prems(1) by (simp add: utf8_width_ascii)
  show ?case
  proof (cases "i = offset")
    case True
    then show ?thesis by (simp add: Let_def)
  next
    case False
    with Cons.prems(2) have lt: "i + 1 \<le> offset" by simp
    have n: "nat (offset - i) = Suc (nat (offset - (i + 1)))" using lt by simp
    from Cons.prems(1) have "\<forall>c \<in> set cs. (of_char c :: nat) < 0x80" by simp
    note IH = Cons.IH [OF this lt]
    show ?thesis using False by (simp add: Let_def w IH n)
  qed
qed

lemma jsonLineAndChar_ascii:
  assumes "\<forall>c \<in> set input. (of_char c :: nat) < 0x80" "0 \<le> offset"
    "offset \<le> int (length input)"
  shows "jsonLineAndChar input offset =
           Inr (scan_position (take (nat offset + 1) input) (1, 0))"
  using assms jsonLineAndChar_loop_ascii [of input 0 offset 1 0]
  by (simp add: jsonLineAndChar_def)

text \<open>
  Claim C9 fails on the code. The loop stops only at a rune that starts exactly at the
  offset. \<^verbatim>\<open>encoding/json\<close> counts bytes, so the offset may fall inside a multi-byte
  character; the loop then never stops and the whole input is scanned. For the body
  \<open>ex_body\<close> the decoder rejects the byte at index 1 and reports the offset 2: the first
  three bytes hold no line feed, yet the position computed is line 3, character 1, and
  that is what the error message cites.
\<close>

theorem jsonLineAndChar_offset_inside_rune:
  "jsonLineAndChar ex_body 2 = Inr (3, 1) \<and>
   CHR 0x0A \<notin> set (take 3 ex_body) \<and>
   scan_position (take 3 ex_body) (1, 0) = (1, 3) \<and>
   convertJSONError ex_body (Some (SyntaxError ''invalid character'' 2)) =
     Some (Errorf ''Error parsing JSON at line 3, character 1: invalid character\<newline>'')"
  by (simp add: ex_body_def convertJSONError_def jsonLineAndChar_def utf8_width_def
      in_range_def Let_def itoa_def)

end
